theory Spec2Isabelle
  imports Complex_Main "HOL-Library.Multiset"
begin

section \<open>Constants of the sheet and of the physics (game.js, lines 11-42)\<close>

text \<open>
  JavaScript numbers are modelled as mathematical reals: the arithmetic of the source is
  read without IEEE-754 rounding, and without NaN or infinite values. The one exception
  is \<open>resolveCollisionR\<close>, which rounds the result of every operation and so follows
  the doubles of the source. Counters that the source only ever increments from zero are
  natural numbers; team identifiers are integers (0 = red, 1 = yellow, and -1 for "no
  team" in a score).
\<close>

definition ICE_FRICTION :: real where "ICE_FRICTION = 984 / 1000"
definition SWEPT_FRICTION :: real where "SWEPT_FRICTION = 998 / 1000"
definition ROUGH_FRICTION :: real where "ROUGH_FRICTION = 96 / 100"
definition MIN_VELOCITY :: real where "MIN_VELOCITY = 6 / 100"
definition STONE_RADIUS :: real where "STONE_RADIUS = 14"
definition RESTITUTION :: real where "RESTITUTION = 85 / 100"
definition FRICTION_DEGRADATION :: real where "FRICTION_DEGRADATION = 1 / 1000"
definition FGZ_STONE_COUNT :: nat where "FGZ_STONE_COUNT = 4"

definition SHEET_width :: real where "SHEET_width = 240"
definition SHEET_length :: real where "SHEET_length = 900"
definition SHEET_houseRadius :: real where "SHEET_houseRadius = 90"
definition SHEET_hogLineFromEnd :: real where "SHEET_hogLineFromEnd = 200"
definition SHEET_houseCenterY :: real where "SHEET_houseCenterY = 120"
definition SHEET_hackFromEnd :: real where "SHEET_hackFromEnd = 30"
definition SHEET_centerLineY :: real where "SHEET_centerLineY = 450"
definition SWEEP_RADIUS :: real where "SWEEP_RADIUS = 30"

section \<open>Stones (class Stone, lines 60-124)\<close>

text \<open>
  The fields \<open>x\<close> and \<open>y\<close> of the source are called \<open>pos_x\<close> and \<open>pos_y\<close> here, so
  that \<open>x\<close> and \<open>y\<close> stay usable as variables.
\<close>

record stone =
  team :: int
  pos_x :: real
  pos_y :: real
  vx :: real
  vy :: real
  radius :: real
  active :: bool

text \<open>The constructor: a stone at rest, active, of the fixed radius.\<close>

definition Stone :: "int \<Rightarrow> real \<Rightarrow> real \<Rightarrow> stone" where
  "Stone t x y =
     \<lparr>team = t, pos_x = x, pos_y = y, vx = 0, vy = 0, radius = STONE_RADIUS, active = True\<rparr>"

definition speed :: "stone \<Rightarrow> real" where
  "speed s = sqrt (vx s * vx s + vy s * vy s)"

definition isMoving :: "stone \<Rightarrow> bool" where
  "isMoving s \<longleftrightarrow> speed s > MIN_VELOCITY"

text \<open>A zone of swept or rough ice. The creation time of a swept zone only drives its
  fading on screen and is left out.\<close>

record zone =
  z_x :: real
  z_y :: real
  z_radius :: real

text \<open>The test both zone loops of \<open>Stone.update\<close> make on one zone.\<close>

definition withinZone :: "stone \<Rightarrow> zone \<Rightarrow> bool" where
  "withinZone s z =
     (let dx = pos_x s - z_x z; dy = pos_y s - z_y z; d = sqrt (dx * dx + dy * dy)
      in d < z_radius z + radius s * (1 / 2))"

text \<open>A zone loop: the first zone hit overrides the friction and the loop breaks; with
  no zone hit (or an empty list) the friction stays what it was.\<close>

fun zoneLoop :: "real \<Rightarrow> stone \<Rightarrow> zone list \<Rightarrow> real \<Rightarrow> real" where
  "zoneLoop zf s [] friction = friction"
| "zoneLoop zf s (z # zs) friction =
     (if withinZone s z then zf else zoneLoop zf s zs friction)"

text \<open>\<open>Stone.update\<close>: the rough zones are checked first, the swept zones after them.\<close>

definition stone_update :: "zone list \<Rightarrow> zone list \<Rightarrow> int \<Rightarrow> stone \<Rightarrow> stone" where
  "stone_update sweepZones roughZones currentEnd s =
     (if \<not> active s then s
      else
        let s1 = s\<lparr>pos_x := pos_x s + vx s, pos_y := pos_y s + vy s\<rparr>;
            baseFriction = ICE_FRICTION - (real_of_int currentEnd - 1) * FRICTION_DEGRADATION;
            friction = zoneLoop ROUGH_FRICTION s1 roughZones baseFriction;
            friction = zoneLoop SWEPT_FRICTION s1 sweepZones friction;
            s2 = s1\<lparr>vx := vx s1 * friction, vy := vy s1 * friction\<rparr>
        in if speed s2 < MIN_VELOCITY then s2\<lparr>vx := 0, vy := 0\<rparr> else s2)"

section \<open>The physics engine (class PhysicsEngine, lines 129-245)\<close>

record physics =
  stones :: "stone list"
  sweepZones :: "zone list"
  roughZones :: "zone list"

text \<open>\<open>resolveCollision(a, b)\<close> mutates both stones; the model returns the pair.\<close>

definition resolveCollision :: "stone \<Rightarrow> stone \<Rightarrow> stone \<times> stone" where
  "resolveCollision a b =
     (if \<not> active a \<or> \<not> active b then (a, b)
      else
        let dx = pos_x b - pos_x a;
            dy = pos_y b - pos_y a;
            d = sqrt (dx * dx + dy * dy);
            minDist = radius a + radius b
        in if d < minDist \<and> d > 0 then
             let nx = dx / d;
                 ny = dy / d;
                 dvx = vx a - vx b;
                 dvy = vy a - vy b;
                 dvDotN = dvx * nx + dvy * ny
             in if dvDotN \<le> 0 then (a, b)
                else
                  let impulse = dvDotN * RESTITUTION;
                      a1 = a\<lparr>vx := vx a - impulse * nx, vy := vy a - impulse * ny\<rparr>;
                      b1 = b\<lparr>vx := vx b + impulse * nx, vy := vy b + impulse * ny\<rparr>;
                      overlap = minDist - d;
                      a2 = a1\<lparr>pos_x := pos_x a1 - overlap * (1 / 2) * nx,
                              pos_y := pos_y a1 - overlap * (1 / 2) * ny\<rparr>;
                      b2 = b1\<lparr>pos_x := pos_x b1 + overlap * (1 / 2) * nx,
                              pos_y := pos_y b1 + overlap * (1 / 2) * ny\<rparr>
                  in (a2, b2)
           else (a, b))"

text \<open>
  Rounding to the nearest double, ties to even: 53 significant bits. The exponent range
  is left unbounded (no overflow, no subnormal numbers), which does not matter for the
  magnitudes met on the sheet.
\<close>

definition roundEven :: "real \<Rightarrow> int" where
  "roundEven y =
     (let f = \<lfloor>y\<rfloor>
      in if y - of_int f < 1 / 2 then f
         else if y - of_int f > 1 / 2 then f + 1
         else if even f then f else f + 1)"

definition binary64 :: "real \<Rightarrow> real" where
  "binary64 x =
     (if x = 0 then 0
      else
        let e = \<lfloor>log 2 \<bar>x\<bar>\<rfloor>;
            q = 2 powr (of_int e - 52)
        in q * of_int (roundEven (x / q)))"

text \<open>
  \<open>resolveCollision\<close> with the arithmetic of the source spelled out: \<open>rd\<close> rounds the
  result of every operation (and the literal \<open>RESTITUTION\<close>), in the order in which
  JavaScript evaluates the expressions. The fields of the two stones are taken to be
  doubles already. With \<open>binary64\<close> for \<open>rd\<close> this is the computation of the source;
  with the identity it is \<open>resolveCollision\<close>.
\<close>

definition resolveCollisionR :: "(real \<Rightarrow> real) \<Rightarrow> stone \<Rightarrow> stone \<Rightarrow> stone \<times> stone" where
  "resolveCollisionR rd a b =
     (if \<not> active a \<or> \<not> active b then (a, b)
      else
        let dx = rd (pos_x b - pos_x a);
            dy = rd (pos_y b - pos_y a);
            d = rd (sqrt (rd (rd (dx * dx) + rd (dy * dy))));
            minDist = rd (radius a + radius b)
        in if d < minDist \<and> d > 0 then
             let nx = rd (dx / d);
                 ny = rd (dy / d);
                 dvx = rd (vx a - vx b);
                 dvy = rd (vy a - vy b);
                 dvDotN = rd (rd (dvx * nx) + rd (dvy * ny))
             in if dvDotN \<le> 0 then (a, b)
                else
                  let impulse = rd (dvDotN * rd RESTITUTION);
                      a1 = a\<lparr>vx := rd (vx a - rd (impulse * nx)),
                             vy := rd (vy a - rd (impulse * ny))\<rparr>;
                      b1 = b\<lparr>vx := rd (vx b + rd (impulse * nx)),
                             vy := rd (vy b + rd (impulse * ny))\<rparr>;
                      overlap = rd (minDist - d);
                      a2 = a1\<lparr>pos_x := rd (pos_x a1 - rd (rd (overlap * (1 / 2)) * nx)),
                              pos_y := rd (pos_y a1 - rd (rd (overlap * (1 / 2)) * ny))\<rparr>;
                      b2 = b1\<lparr>pos_x := rd (pos_x b1 + rd (rd (overlap * (1 / 2)) * nx)),
                              pos_y := rd (pos_y b1 + rd (rd (overlap * (1 / 2)) * ny))\<rparr>
                  in (a2, b2)
           else (a, b))"

text \<open>The getter \<open>anyMoving\<close>: \<open>this.stones.some(s => s.isMoving)\<close>.\<close>

definition anyMoving :: "physics \<Rightarrow> bool" where
  "anyMoving p = list_ex isMoving (stones p)"

text \<open>The distance between the centres of two stones.\<close>

definition centerDist :: "stone \<Rightarrow> stone \<Rightarrow> real" where
  "centerDist a b =
     sqrt ((pos_x b - pos_x a) * (pos_x b - pos_x a) + (pos_y b - pos_y a) * (pos_y b - pos_y a))"

text \<open>The projection of the relative velocity onto the collision normal.\<close>

definition approachSpeed :: "stone \<Rightarrow> stone \<Rightarrow> real" where
  "approachSpeed a b =
     (vx a - vx b) * ((pos_x b - pos_x a) / centerDist a b)
     + (vy a - vy b) * ((pos_y b - pos_y a) / centerDist a b)"

text \<open>\<open>addStone\<close>, \<open>clearSweepZones\<close> and \<open>addSweepZone\<close>.\<close>

definition addStone :: "physics \<Rightarrow> stone \<Rightarrow> physics" where
  "addStone p s = p\<lparr>stones := stones p @ [s]\<rparr>"

definition clearSweepZones :: "physics \<Rightarrow> physics" where
  "clearSweepZones p = p\<lparr>sweepZones := []\<rparr>"

definition addSweepZone :: "physics \<Rightarrow> real \<Rightarrow> real \<Rightarrow> physics" where
  "addSweepZone p x y =
     (if list_ex (\<lambda>z. sqrt ((z_x z - x) * (z_x z - x) + (z_y z - y) * (z_y z - y))
                        < SWEEP_RADIUS * (1 / 2)) (sweepZones p)
      then p
      else p\<lparr>sweepZones := sweepZones p @ [\<lparr>z_x = x, z_y = y, z_radius = SWEEP_RADIUS\<rparr>]\<rparr>)"

section \<open>Scoring (function calculateScore, lines 701-728)\<close>

record score_result =
  r_team :: int
  r_points :: nat

definition houseCenter :: "real \<times> real" where
  "houseCenter = (SHEET_width / 2, SHEET_houseCenterY)"

text \<open>\<open>dist(s, houseCenter)\<close>, the function \<open>dist\<close> of the source at its only use.\<close>

definition distToButton :: "stone \<Rightarrow> real" where
  "distToButton s =
     (let dx = pos_x s - fst houseCenter; dy = pos_y s - snd houseCenter
      in sqrt (dx * dx + dy * dy))"

definition maxDist :: real where
  "maxDist = SHEET_houseRadius + STONE_RADIUS"

text \<open>
  The array \<open>inHouse\<close>: the objects \<open>{team, distance}\<close> are pairs. \<open>Array.prototype.sort\<close>
  is stable, and the comparator \<open>a.distance - b.distance\<close> orders by distance, which is
  what \<open>sort_key\<close> (a stable insertion sort) computes.
\<close>

definition inHouse :: "stone list \<Rightarrow> (int \<times> real) list" where
  "inHouse sts =
     sort_key snd
       (map (\<lambda>s. (team s, distToButton s))
         (filter (\<lambda>s. active s \<and> distToButton s \<le> maxDist) sts))"

text \<open>\<open>s.distance < opponentDist\<close>, where \<open>None\<close> stands for \<open>Infinity\<close>.\<close>

fun closerThan :: "real \<Rightarrow> real option \<Rightarrow> bool" where
  "closerThan d None = True"
| "closerThan d (Some c) = (d < c)"

definition calculateScore :: "stone list \<Rightarrow> score_result" where
  "calculateScore sts =
     (case inHouse sts of
        [] \<Rightarrow> \<lparr>r_team = - 1, r_points = 0\<rparr>
      | e # es \<Rightarrow>
          let closestTeam = fst e;
              closestOpponent = find (\<lambda>s. fst s \<noteq> closestTeam) (e # es);
              opponentDist = map_option snd closestOpponent;
              points = length (filter (\<lambda>s. fst s = closestTeam \<and> closerThan (snd s) opponentDist)
                                 (e # es))
          in \<lparr>r_team = closestTeam, r_points = points\<rparr>)"

section \<open>The match (class Game, lines 888-1763)\<close>

datatype phase = Lobby | Aiming | AimLocked | Waiting | Cooldown | EndOver | GameOver

text \<open>The plain objects \<open>{team, x, y, vx, vy, active}\<close> of a snapshot and of a
  \<open>sync-stones\<close> payload.\<close>

record stone_data =
  sd_team :: int
  sd_x :: real
  sd_y :: real
  sd_vx :: real
  sd_vy :: real
  sd_active :: bool

text \<open>
  The fields of \<open>Game\<close> that the rules read or write. The two-element arrays \<open>scores\<close>
  and \<open>stonesThrown\<close> are pairs (index 0 first). Timers, the aim target, the power
  slider and everything drawn on screen are left out: a handler that waits for a timer
  is modelled at the moment the timer has expired.
\<close>

record game =
  physics :: physics
  totalEnds :: int
  currentEnd :: int
  scores :: "nat \<times> nat"
  stonesThrown :: "nat \<times> nat"
  currentTeam :: int
  hammer :: int
  state :: phase
  preThrowPositions :: "stone_data list"
  isMyTurn :: bool
  myTeam :: int
  isLaunchOwner :: bool
  endScores :: "(nat \<times> nat) list"

text \<open>
  Reading and incrementing an entry of a two-element array by a team index. An index
  other than 0 or 1 makes JavaScript write a new entry and leave entries 0 and 1 as they
  are, which is all the pair keeps.
\<close>

definition entry :: "int \<Rightarrow> nat \<times> nat \<Rightarrow> nat" where
  "entry t ar = (if t = 0 then fst ar else snd ar)"

definition addEntry :: "int \<Rightarrow> nat \<Rightarrow> nat \<times> nat \<Rightarrow> nat \<times> nat" where
  "addEntry t n ar =
     (if t = 0 then (fst ar + n, snd ar) else if t = 1 then (fst ar, snd ar + n) else ar)"

definition launchPos :: "real \<times> real" where
  "launchPos = (SHEET_width / 2, SHEET_length - SHEET_hackFromEnd - 30)"

definition snapshot :: "stone \<Rightarrow> stone_data" where
  "snapshot s =
     \<lparr>sd_team = team s, sd_x = pos_x s, sd_y = pos_y s, sd_vx = vx s, sd_vy = vy s,
      sd_active = active s\<rparr>"

text \<open>The stone that \<open>applyStoneSyncFromRemote\<close> builds from one payload entry.\<close>

definition stoneOfData :: "stone_data \<Rightarrow> stone" where
  "stoneOfData sd =
     (Stone (sd_team sd) (sd_x sd) (sd_y sd))
       \<lparr>vx := sd_vx sd, vy := sd_vy sd, active := sd_active sd\<rparr>"

definition applyStoneSyncFromRemote :: "game \<Rightarrow> stone_data list \<Rightarrow> game" where
  "applyStoneSyncFromRemote g stonesData =
     g\<lparr>physics := (physics g)\<lparr>stones := map stoneOfData stonesData\<rparr>\<rparr>"

text \<open>\<open>endEnd\<close>: the score of the end, the hammer, and the phase \<open>end_over\<close>.\<close>

definition endEnd :: "game \<Rightarrow> game" where
  "endEnd g =
     (let result = calculateScore (stones (physics g));
          endPoints = (if r_team result \<ge> 0 then addEntry (r_team result) (r_points result) (0, 0)
                       else (0, 0));
          g1 = (if r_team result \<ge> 0
                then g\<lparr>scores := addEntry (r_team result) (r_points result) (scores g),
                       hammer := (if r_team result = 0 then 1 else 0)\<rparr>
                else g)
      in g1\<lparr>state := EndOver, endScores := endScores g1 @ [endPoints],
            currentEnd := currentEnd g1 + 1\<rparr>)"

definition nextTurn :: "game \<Rightarrow> game" where
  "nextTurn g =
     (let totalThrown = fst (stonesThrown g) + snd (stonesThrown g)
      in if totalThrown \<ge> 16 then endEnd g
         else
           let otherTeam = (if currentTeam g = 0 then 1 else 0);
               g1 = (if entry otherTeam (stonesThrown g) < 8 then g\<lparr>currentTeam := otherTeam\<rparr>
                     else g)
           in g1\<lparr>state := Cooldown, isMyTurn := (currentTeam g1 = myTeam g1)\<rparr>)"

text \<open>
  \<open>launchStone\<close>. The velocity, which the source computes from the aim target, the
  power and a wobble that depends on the clock, is a parameter.
\<close>

definition launchStone :: "game \<Rightarrow> real \<Rightarrow> real \<Rightarrow> game" where
  "launchStone g lvx lvy =
     (let st = (Stone (currentTeam g) (fst launchPos) (snd launchPos))\<lparr>vx := lvx, vy := lvy\<rparr>;
          pre = map snapshot (stones (physics g))
      in g\<lparr>isLaunchOwner := True,
           preThrowPositions := pre,
           physics := clearSweepZones (addStone (physics g) st),
           stonesThrown := addEntry (currentTeam g) 1 (stonesThrown g),
           state := Waiting\<rparr>)"

text \<open>The click handler of the launch button.\<close>

definition btnLaunch_click :: "game \<Rightarrow> real \<Rightarrow> real \<Rightarrow> game" where
  "btnLaunch_click g lvx lvy = (if state g \<noteq> AimLocked then g else launchStone g lvx lvy)"

text \<open>The aim-timer branch of \<open>update\<close>, taken when the time limit has passed.\<close>

definition aimTimeout :: "game \<Rightarrow> game" where
  "aimTimeout g =
     (if (state g = Aiming \<or> state g = AimLocked) \<and> isMyTurn g
      then nextTurn (g\<lparr>stonesThrown := addEntry (currentTeam g) 1 (stonesThrown g)\<rparr>)
      else g)"

text \<open>The cooldown branch of \<open>update\<close>, taken when the pause has passed.\<close>

definition cooldownElapsed :: "game \<Rightarrow> game" where
  "cooldownElapsed g =
     (if state g = Cooldown
      then g\<lparr>state := Aiming, physics := clearSweepZones (physics g)\<rparr>
      else g)"

text \<open>The handler \<open>onUp\<close> at the end of a drag that has set an aim target, and the click
  handler of the cancel button.\<close>

definition aimRelease :: "game \<Rightarrow> game" where
  "aimRelease g = (if state g \<noteq> Aiming \<or> \<not> isMyTurn g then g else g\<lparr>state := AimLocked\<rparr>)"

definition btnCancelAim_click :: "game \<Rightarrow> game" where
  "btnCancelAim_click g = (if state g \<noteq> AimLocked then g else g\<lparr>state := Aiming\<rparr>)"

text \<open>The actions relayed from the other peer. Of a launch, the aim target and the
  power only feed the display and are left out.\<close>

datatype action =
  Launch int real real "zone list option"
| Sweep real real
| Timeout int
| SyncStones "stone_data list"
| EndEndAction

definition launchStoneFromAction :: "game \<Rightarrow> int \<Rightarrow> real \<Rightarrow> real \<Rightarrow> game" where
  "launchStoneFromAction g t avx avy =
     (let st = (Stone t (fst launchPos) (snd launchPos))\<lparr>vx := avx, vy := avy\<rparr>;
          pre = map snapshot (stones (physics g))
      in g\<lparr>preThrowPositions := pre,
           physics := clearSweepZones (addStone (physics g) st),
           stonesThrown := addEntry t 1 (stonesThrown g),
           state := Waiting\<rparr>)"

fun handleRemoteAction :: "game \<Rightarrow> action \<Rightarrow> game" where
  "handleRemoteAction g (Launch t avx avy rz) =
     (let g1 = g\<lparr>currentTeam := t\<rparr>;
          g2 = (case rz of
                  Some zs \<Rightarrow> g1\<lparr>physics := (physics g1)\<lparr>roughZones := zs\<rparr>\<rparr>
                | None \<Rightarrow> g1)
      in launchStoneFromAction g2 t avx avy)"
| "handleRemoteAction g (Sweep x y) = g\<lparr>physics := addSweepZone (physics g) x y\<rparr>"
| "handleRemoteAction g (Timeout t) =
     nextTurn (g\<lparr>stonesThrown := addEntry t 1 (stonesThrown g)\<rparr>)"
| "handleRemoteAction g (SyncStones sds) = applyStoneSyncFromRemote g sds"
| "handleRemoteAction g EndEndAction = g"

text \<open>\<open>startEnd\<close>; the rough zones, drawn at random by the source, are a parameter.\<close>

definition startEnd :: "game \<Rightarrow> zone list \<Rightarrow> game" where
  "startEnd g rz =
     (let ct = (if hammer g = 1 then 0 else 1)
      in g\<lparr>physics := \<lparr>stones = [], sweepZones = [], roughZones = rz\<rparr>,
           stonesThrown := (0, 0),
           currentTeam := ct,
           isMyTurn := (ct = myTeam g),
           state := Aiming\<rparr>)"

section \<open>The free guard zone (method enforceFreeGuardZone, lines 1697-1749)\<close>

text \<open>\<open>Array.prototype.find\<close> returns the object itself, which the source then mutates in
  place; the model finds its index and updates the list there.\<close>

fun findIndex :: "('a \<Rightarrow> bool) \<Rightarrow> 'a list \<Rightarrow> nat option" where
  "findIndex P [] = None"
| "findIndex P (x # xs) = (if P x then Some 0 else map_option Suc (findIndex P xs))"

definition inFGZ :: "stone_data \<Rightarrow> bool" where
  "inFGZ pre =
     (let hogY = SHEET_hogLineFromEnd;
          houseRadius = SHEET_houseRadius + STONE_RADIUS;
          distToHouse = sqrt ((sd_x pre - fst houseCenter)\<^sup>2 + (sd_y pre - snd houseCenter)\<^sup>2)
      in sd_y pre \<le> hogY \<and> distToHouse > houseRadius)"

text \<open>The predicate of the first \<open>find\<close>: a stone of the snapshot's team, not moving,
  within 1 of the snapshot position on both axes.\<close>

definition stillThere :: "stone_data \<Rightarrow> stone \<Rightarrow> bool" where
  "stillThere pre s \<longleftrightarrow>
     team s = sd_team pre \<and> \<not> isMoving s
     \<and> \<bar>pos_x s - sd_x pre\<bar> < 1 \<and> \<bar>pos_y s - sd_y pre\<bar> < 1"

text \<open>The predicate of the second \<open>find\<close>: an active stone of that team, more than 2
  away on some axis.\<close>

definition isDisplaced :: "stone_data \<Rightarrow> stone \<Rightarrow> bool" where
  "isDisplaced pre s \<longleftrightarrow>
     team s = sd_team pre \<and> active s
     \<and> (\<bar>pos_x s - sd_x pre\<bar> > 2 \<or> \<bar>pos_y s - sd_y pre\<bar> > 2)"

text \<open>The body of the \<open>if (!currentStone)\<close> branch: restore, then the penalty on the
  last stone of the array.\<close>

definition restoreAndPenalise :: "int \<Rightarrow> stone_data \<Rightarrow> stone list \<Rightarrow> stone list" where
  "restoreAndPenalise ct pre sts =
     (let sts1 = (case findIndex (isDisplaced pre) sts of
                    Some i \<Rightarrow> sts[i := (sts ! i)\<lparr>pos_x := sd_x pre, pos_y := sd_y pre,
                                                vx := 0, vy := 0\<rparr>]
                  | None \<Rightarrow> sts @ [Stone (sd_team pre) (sd_x pre) (sd_y pre)])
      in if sts1 \<noteq> [] \<and> team (last sts1) = ct
         then sts1[length sts1 - 1 := (last sts1)\<lparr>active := False\<rparr>]
         else sts1)"

text \<open>The loop over the snapshot, with its three \<open>continue\<close> guards.\<close>

fun fgzLoop :: "int \<Rightarrow> stone_data list \<Rightarrow> stone list \<Rightarrow> stone list" where
  "fgzLoop ct [] sts = sts"
| "fgzLoop ct (pre # rest) sts =
     (if sd_team pre = ct then fgzLoop ct rest sts
      else if \<not> sd_active pre then fgzLoop ct rest sts
      else if \<not> inFGZ pre then fgzLoop ct rest sts
      else (case findIndex (stillThere pre) sts of
              Some i \<Rightarrow> fgzLoop ct rest sts
            | None \<Rightarrow> fgzLoop ct rest (restoreAndPenalise ct pre sts)))"

definition enforceFreeGuardZone :: "game \<Rightarrow> game" where
  "enforceFreeGuardZone g =
     (let totalThrown = fst (stonesThrown g) + snd (stonesThrown g)
      in if totalThrown > FGZ_STONE_COUNT then g
         else g\<lparr>physics := (physics g)\<lparr>stones :=
                  fgzLoop (currentTeam g) (preThrowPositions g) (stones (physics g))\<rparr>\<rparr>)"

text \<open>\<open>checkHogLine\<close>: a live stone at rest short of the centre line is retired.\<close>

definition checkHogLine :: "game \<Rightarrow> game" where
  "checkHogLine g =
     g\<lparr>physics := (physics g)\<lparr>stones :=
         map (\<lambda>s. if active s \<and> pos_y s > SHEET_centerLineY \<and> \<not> isMoving s
                  then s\<lparr>active := False, vx := 0, vy := 0\<rparr> else s)
             (stones (physics g))\<rparr>\<rparr>"

text \<open>
  The waiting branch of \<open>update\<close>. What \<open>physics.update\<close> makes of the stones and zones
  on this frame is the parameter \<open>p'\<close>; the message to the other peer is not modelled.
\<close>

definition waitingFrame :: "game \<Rightarrow> physics \<Rightarrow> game" where
  "waitingFrame g p' =
     (if state g = Waiting then
        let g1 = g\<lparr>physics := p'\<rparr>
        in if \<not> anyMoving p'
           then nextTurn (checkHogLine (enforceFreeGuardZone (g1\<lparr>isLaunchOwner := False\<rparr>)))
           else g1
      else g)"

text \<open>What can happen to a peer during an end, and the handler that each event runs.\<close>

datatype event =
  Remote action
| AimTimeLimit
| CooldownElapsed
| AimRelease
| CancelClick
| LaunchClick real real
| Frame physics

fun dispatch :: "game \<Rightarrow> event \<Rightarrow> game" where
  "dispatch g (Remote a) = handleRemoteAction g a"
| "dispatch g AimTimeLimit = aimTimeout g"
| "dispatch g CooldownElapsed = cooldownElapsed g"
| "dispatch g AimRelease = aimRelease g"
| "dispatch g CancelClick = btnCancelAim_click g"
| "dispatch g (LaunchClick lvx lvy) = btnLaunch_click g lvx lvy"
| "dispatch g (Frame p') = waitingFrame g p'"

section \<open>Notions of the specification\<close>

text \<open>The specification's reading of \<open>anyMoving\<close>: some active stone is faster than the
  threshold.\<close>

definition someActiveMoving :: "physics \<Rightarrow> bool" where
  "someActiveMoving p = list_ex (\<lambda>s. active s \<and> speed s > MIN_VELOCITY) (stones p)"

text \<open>No retired stone of the collection is faster than the threshold.\<close>

definition retiredAtRest :: "physics \<Rightarrow> bool" where
  "retiredAtRest p \<longleftrightarrow> (\<forall>s \<in> set (stones p). \<not> active s \<longrightarrow> speed s \<le> MIN_VELOCITY)"

text \<open>Every rounding by \<open>rd\<close> has a relative error of at most \<open>u\<close>.\<close>

definition roundsWithin :: "real \<Rightarrow> (real \<Rightarrow> real) \<Rightarrow> bool" where
  "roundsWithin u rd \<longleftrightarrow> (\<forall>x. \<bar>rd x - x\<bar> \<le> u * \<bar>x\<bar>)"

text \<open>The position step of a kinematics tick.\<close>

definition moved :: "stone \<Rightarrow> stone" where
  "moved s = s\<lparr>pos_x := pos_x s + vx s, pos_y := pos_y s + vy s\<rparr>"

text \<open>The friction factor as the specification words it: swept before rough before the
  base coefficient, which falls with the end number.\<close>

definition specFriction :: "zone list \<Rightarrow> zone list \<Rightarrow> int \<Rightarrow> stone \<Rightarrow> real" where
  "specFriction sw ro ce s =
     (if \<exists>z \<in> set sw. withinZone s z then SWEPT_FRICTION
      else if \<exists>z \<in> set ro. withinZone s z then ROUGH_FRICTION
      else ICE_FRICTION - (real_of_int ce - 1) * FRICTION_DEGRADATION)"

text \<open>The stones that \<open>calculateScore\<close> considers: active, and no farther from the
  button than the house radius plus the stone radius.\<close>

definition candidates :: "stone list \<Rightarrow> stone list" where
  "candidates sts = filter (\<lambda>s. active s \<and> distToButton s \<le> maxDist) sts"

text \<open>Two considered stones of different teams are both closest to the button.\<close>

definition crossTeamTie :: "stone list \<Rightarrow> bool" where
  "crossTeamTie sts \<longleftrightarrow>
     (\<exists>s \<in> set (candidates sts). \<exists>t \<in> set (candidates sts).
        team s \<noteq> team t
        \<and> (\<forall>u \<in> set (candidates sts). distToButton s \<le> distToButton u)
        \<and> (\<forall>u \<in> set (candidates sts). distToButton t \<le> distToButton u))"

text \<open>The entry of \<open>inHouse\<close> made from a stone.\<close>

definition entryOf :: "stone \<Rightarrow> int \<times> real" where
  "entryOf s = (team s, distToButton s)"

text \<open>\<open>n\<close> kinematics ticks of one stone, the zones and the end number staying as they
  are.\<close>

fun ticks :: "zone list \<Rightarrow> zone list \<Rightarrow> int \<Rightarrow> nat \<Rightarrow> stone \<Rightarrow> stone" where
  "ticks sw ro ce 0 s = s"
| "ticks sw ro ce (Suc n) s = stone_update sw ro ce (ticks sw ro ce n s)"

text \<open>At each of the first \<open>n\<close> ticks the stone's centre, once moved, lies within a rough
  zone and within no swept zone.\<close>

definition staysOnRough :: "zone list \<Rightarrow> zone list \<Rightarrow> int \<Rightarrow> nat \<Rightarrow> stone \<Rightarrow> bool" where
  "staysOnRough sw ro ce n s \<longleftrightarrow>
     (\<forall>k < n. (\<exists>z \<in> set ro. withinZone (moved (ticks sw ro ce k s)) z)
            \<and> \<not> (\<exists>z \<in> set sw. withinZone (moved (ticks sw ro ce k s)) z))"

text \<open>At each of the first \<open>n\<close> ticks the stone's centre, once moved, lies within a swept
  zone.\<close>

definition staysOnSwept :: "zone list \<Rightarrow> zone list \<Rightarrow> int \<Rightarrow> nat \<Rightarrow> stone \<Rightarrow> bool" where
  "staysOnSwept sw ro ce n s \<longleftrightarrow>
     (\<forall>k < n. \<exists>z \<in> set sw. withinZone (moved (ticks sw ro ce k s)) z)"

text \<open>The number of stones thrown in the end so far.\<close>

definition thrownSum :: "game \<Rightarrow> nat" where
  "thrownSum g = fst (stonesThrown g) + snd (stonesThrown g)"

text \<open>An event is in turn if it is not a throw relayed from the other peer, or if that
  throw is by team 0 or 1 and arrives while fewer than 16 stones have been thrown.\<close>

fun inTurn :: "game \<Rightarrow> event \<Rightarrow> bool" where
  "inTurn g (Remote (Launch t avx avy rz)) \<longleftrightarrow> thrownSum g < 16 \<and> (t = 0 \<or> t = 1)"
| "inTurn g (Remote (Timeout t)) \<longleftrightarrow> thrownSum g < 16 \<and> (t = 0 \<or> t = 1)"
| "inTurn g e \<longleftrightarrow> True"

fun inTurnRun :: "game \<Rightarrow> event list \<Rightarrow> bool" where
  "inTurnRun g [] \<longleftrightarrow> True"
| "inTurnRun g (e # es) \<longleftrightarrow> inTurn g e \<and> inTurnRun (dispatch g e) es"

text \<open>The invariant of an end that the specification asks for.\<close>

definition endInvariant :: "game \<Rightarrow> bool" where
  "endInvariant g \<longleftrightarrow>
     thrownSum g \<le> 16
     \<and> (state g = Aiming \<or> state g = AimLocked \<or> state g = Cooldown \<longrightarrow> thrownSum g < 16)
     \<and> (state g = EndOver \<longrightarrow> thrownSum g = 16)
     \<and> (currentTeam g = 0 \<or> currentTeam g = 1)"

section \<open>Concrete configurations\<close>

text \<open>Two overlapping stones, the first moving towards the second.\<close>

definition stoneA :: stone where "stoneA = (Stone 0 0 0)\<lparr>vx := 1\<rparr>"
definition stoneB :: stone where "stoneB = Stone 1 3 4"

text \<open>Two overlapping stones whose velocities are the doubles 0.2 and 0.1.\<close>

definition glancingA :: stone where "glancingA = (Stone 0 0 0)\<lparr>vx := binary64 (1 / 5)\<rparr>"
definition glancingB :: stone where "glancingB = (Stone 1 3 4)\<lparr>vy := binary64 (1 / 10)\<rparr>"

text \<open>A retired stone that still carries a velocity, alone on the sheet.\<close>

definition retiredButMoving :: physics where
  "retiredButMoving =
     \<lparr>stones = [(Stone 0 120 300)\<lparr>vx := 1, active := False\<rparr>], sweepZones = [], roughZones = []\<rparr>"

text \<open>A live moving stone next to a retired stone at rest.\<close>

definition oneLiveOneRetired :: physics where
  "oneLiveOneRetired =
     \<lparr>stones = [(Stone 0 120 300)\<lparr>vy := - 1\<rparr>, (Stone 1 60 300)\<lparr>active := False\<rparr>],
      sweepZones = [], roughZones = []\<rparr>"

text \<open>A stone sliding up the sheet into a patch of ice that is both rough and swept.\<close>

definition slidingStone :: stone where "slidingStone = (Stone 0 100 500)\<lparr>vy := - 2\<rparr>"
definition patch :: zone where "patch = \<lparr>z_x = 100, z_y = 498, z_radius = 30\<rparr>"

text \<open>Stones at rest on the centre line of the house, named by team and distance to the
  button.\<close>

definition red10 :: stone where "red10 = Stone 0 120 130"
definition red20 :: stone where "red20 = Stone 0 120 140"
definition yellow15 :: stone where "yellow15 = Stone 1 120 135"
definition yellow10 :: stone where "yellow10 = Stone 1 120 110"

text \<open>A stone just above the minimum velocity, next to the same patch.\<close>

definition creeping :: stone where "creeping = (Stone 0 100 500)\<lparr>vy := - (601 / 10000)\<rparr>"

text \<open>The state the constructor of \<open>Game\<close> sets, for the peer that plays team 1.\<close>

definition newGame :: game where
  "newGame =
     \<lparr>physics = \<lparr>stones = [], sweepZones = [], roughZones = []\<rparr>,
      totalEnds = 8, currentEnd = 1, scores = (0, 0), stonesThrown = (0, 0),
      currentTeam = 0, hammer = 1, state = Lobby, preThrowPositions = [],
      isMyTurn = False, myTeam = 1, isLaunchOwner = False, endScores = []\<rparr>"

text \<open>An end in which both players let every aim timer run out: the other peer's timeout
  arrives, the cooldown passes, the local timer runs out, the cooldown passes.\<close>

definition skippedRound :: "event list" where
  "skippedRound = [Remote (Timeout 0), CooldownElapsed, AimTimeLimit, CooldownElapsed]"

definition skippedEnd :: "event list" where
  "skippedEnd = skippedRound @ skippedRound @ skippedRound @ skippedRound
                @ skippedRound @ skippedRound @ skippedRound @ skippedRound"

definition endOverGame :: game where
  "endOverGame = foldl dispatch (startEnd newGame []) skippedEnd"

text \<open>
  The second throw of an end has settled. Team 1 had a guard at (216, 192), in the free
  guard zone; the stone thrown by team 0 has knocked it over the side line, where the
  stepper retired it, and has come to rest at (210, 185).
\<close>

definition guardKnockedOut :: game where
  "guardKnockedOut =
     newGame\<lparr>physics := \<lparr>stones = [(Stone 1 250 192)\<lparr>active := False\<rparr>, Stone 0 210 185],
                          sweepZones = [], roughZones = []\<rparr>,
             stonesThrown := (1, 1), currentTeam := 0, state := Waiting,
             preThrowPositions := [\<lparr>sd_team = 1, sd_x = 216, sd_y = 192, sd_vx = 0, sd_vy = 0,
                                     sd_active = True\<rparr>]\<rparr>"

section \<open>Auxiliary facts\<close>

lemmas constants_defs =
  ICE_FRICTION_def SWEPT_FRICTION_def ROUGH_FRICTION_def MIN_VELOCITY_def STONE_RADIUS_def
  RESTITUTION_def FRICTION_DEGRADATION_def FGZ_STONE_COUNT_def SHEET_width_def
  SHEET_length_def SHEET_houseRadius_def SHEET_hogLineFromEnd_def SHEET_houseCenterY_def
  SHEET_centerLineY_def SHEET_hackFromEnd_def SWEEP_RADIUS_def

lemma sqrt_25: "sqrt 25 = 5"
  using real_sqrt_abs2 [of 5] by simp

lemma sqrt_less_iff: "0 \<le> c \<Longrightarrow> sqrt x < c \<longleftrightarrow> x < c * c"
  using real_sqrt_less_iff [of x "c * c"] by simp

lemma less_sqrt_iff: "0 \<le> c \<Longrightarrow> c < sqrt x \<longleftrightarrow> c * c < x"
  using real_sqrt_less_iff [of "c * c" x] by simp

lemma sqrt_le_iff: "0 \<le> c \<Longrightarrow> sqrt x \<le> c \<longleftrightarrow> x \<le> c * c"
  using real_sqrt_le_iff [of x "c * c"] by simp

lemma le_sqrt_iff: "0 \<le> c \<Longrightarrow> c \<le> sqrt x \<longleftrightarrow> c * c \<le> x"
  using real_sqrt_le_iff [of "c * c" x] by simp

lemmas sqrt_cmp = sqrt_less_iff less_sqrt_iff sqrt_le_iff le_sqrt_iff

lemma speed_vx0: "vx s = 0 \<Longrightarrow> speed s = \<bar>vy s\<bar>"
  by (simp add: speed_def)

lemma speed_vy0: "vy s = 0 \<Longrightarrow> speed s = \<bar>vx s\<bar>"
  by (simp add: speed_def)

section \<open>Properties of the collision resolver\<close>

text \<open>On the impulse path the two centres move apart along the normal, each by half the
  overlap.\<close>

lemma resolveCollision_positions:
  assumes "active a" "active b" "0 < centerDist a b" "centerDist a b < radius a + radius b"
    "0 < approachSpeed a b"
  shows "pos_x (fst (resolveCollision a b))
           = pos_x a - (radius a + radius b - centerDist a b) * (1 / 2)
                        * ((pos_x b - pos_x a) / centerDist a b)"
    and "pos_y (fst (resolveCollision a b))
           = pos_y a - (radius a + radius b - centerDist a b) * (1 / 2)
                        * ((pos_y b - pos_y a) / centerDist a b)"
    and "pos_x (snd (resolveCollision a b))
           = pos_x b + (radius a + radius b - centerDist a b) * (1 / 2)
                        * ((pos_x b - pos_x a) / centerDist a b)"
    and "pos_y (snd (resolveCollision a b))
           = pos_y b + (radius a + radius b - centerDist a b) * (1 / 2)
                        * ((pos_y b - pos_y a) / centerDist a b)"
  using assms unfolding resolveCollision_def Let_def approachSpeed_def centerDist_def [symmetric]
  by simp_all

lemma centerDist_after:
  assumes "active a" "active b" "0 < centerDist a b" "centerDist a b < radius a + radius b"
    "0 < approachSpeed a b"
  shows "centerDist (fst (resolveCollision a b)) (snd (resolveCollision a b))
           = radius a + radius b"
proof -
  define dx where "dx = pos_x b - pos_x a"
  define dy where "dy = pos_y b - pos_y a"
  define d where "d = centerDist a b"
  define m where "m = radius a + radius b"
  have dpos: "0 < d" "d < m"
    using assms d_def m_def by simp_all
  have sq: "dx * dx + dy * dy = d * d"
    unfolding d_def centerDist_def dx_def dy_def by (simp add: real_sqrt_mult_self)
  have ex: "pos_x (snd (resolveCollision a b)) - pos_x (fst (resolveCollision a b))
              = dx * (m / d)"
    unfolding resolveCollision_positions [OF assms] d_def [symmetric] m_def [symmetric]
    using dpos by (simp add: dx_def field_simps)
  have ey: "pos_y (snd (resolveCollision a b)) - pos_y (fst (resolveCollision a b))
              = dy * (m / d)"
    unfolding resolveCollision_positions [OF assms] d_def [symmetric] m_def [symmetric]
    using dpos by (simp add: dy_def field_simps)
  have "centerDist (fst (resolveCollision a b)) (snd (resolveCollision a b))
          = sqrt (dx * (m / d) * (dx * (m / d)) + dy * (m / d) * (dy * (m / d)))"
    unfolding centerDist_def ex ey ..
  also have "dx * (m / d) * (dx * (m / d)) + dy * (m / d) * (dy * (m / d))
               = (dx * dx + dy * dy) * ((m / d) * (m / d))"
    by (simp add: add_divide_distrib algebra_simps)
  also have "\<dots> = m * m"
    using dpos by (simp add: sq)
  also have "sqrt (m * m) = m"
    using dpos by simp
  finally show ?thesis
    by (simp add: m_def)
qed

text \<open>
  Claim C6. Two active stones that overlap (centre distance \<open>d\<close> with
  \<open>0 < d < r1 + r2\<close>) and approach each other (positive projection of the relative
  velocity onto the normal) are, after one call of \<open>resolveCollision\<close>, at centre distance
  at least \<open>r1 + r2 - \<epsilon>\<close>, for every \<open>\<epsilon> \<ge> 0\<close>: over the reals the distance is exactly
  \<open>r1 + r2\<close>.
\<close>

theorem resolveCollision_separates:
  assumes "active a" and "active b"
    and "0 < centerDist a b" and "centerDist a b < radius a + radius b"
    and "0 < approachSpeed a b"
    and "0 \<le> eps"
  shows "centerDist (fst (resolveCollision a b)) (snd (resolveCollision a b))
           \<ge> radius a + radius b - eps
         \<and> centerDist (fst (resolveCollision a b)) (snd (resolveCollision a b))
           = radius a + radius b"
  using centerDist_after [OF assms(1-5)] assms(6) by simp

theorem resolveCollision_separates_witness:
  "active stoneA \<and> active stoneB \<and> 0 < centerDist stoneA stoneB
   \<and> centerDist stoneA stoneB < radius stoneA + radius stoneB
   \<and> 0 < approachSpeed stoneA stoneB
   \<and> centerDist (fst (resolveCollision stoneA stoneB)) (snd (resolveCollision stoneA stoneB)) = 28"
proof -
  have d: "centerDist stoneA stoneB = 5"
    by (simp add: stoneA_def stoneB_def centerDist_def Stone_def sqrt_25)
  have ap: "approachSpeed stoneA stoneB = 3 / 5"
    by (simp add: approachSpeed_def d) (simp add: stoneA_def stoneB_def Stone_def)
  have act: "active stoneA" "active stoneB"
    by (simp_all add: stoneA_def stoneB_def Stone_def)
  have r: "radius stoneA + radius stoneB = 28"
    by (simp add: stoneA_def stoneB_def Stone_def STONE_RADIUS_def)
  from resolveCollision_separates [of stoneA stoneB 0] act d ap r show ?thesis
    by simp
qed

section \<open>Momentum under rounding\<close>

lemma roundEven_error: "\<bar>of_int (roundEven y) - y\<bar> \<le> 1 / 2"
proof -
  define f where "f = \<lfloor>y\<rfloor>"
  define r where "r = y - of_int f"
  have r: "0 \<le> r" "r < 1"
    unfolding r_def f_def by linarith+
  have y: "y = of_int f + r"
    by (simp add: r_def)
  have "roundEven y = (if r < 1 / 2 then f else if r > 1 / 2 then f + 1
                        else if even f then f else f + 1)"
    unfolding roundEven_def f_def [symmetric] Let_def r_def [symmetric] ..
  then show ?thesis
    unfolding y using r by (auto simp add: abs_if)
qed

lemma floor_log2:
  assumes "2 ^ n \<le> y" and "y < 2 ^ Suc n"
  shows "\<lfloor>log 2 y\<rfloor> = int n"
proof -
  have "(0::real) < 2 ^ n" by simp
  with assms(1) have pos: "0 < y" by linarith
  have "real n \<le> log 2 y"
    using assms(1) pos by (simp add: le_log_iff powr_realpow)
  moreover have "log 2 y < real n + 1"
    using assms(2) pos by (simp add: log_less_iff powr_realpow powr_add)
  ultimately show ?thesis by (simp add: floor_eq_iff)
qed

lemma binary64_scaled:
  assumes "2 ^ 52 \<le> \<bar>x\<bar> * 2 ^ k" and "\<bar>x\<bar> * 2 ^ k < 2 ^ 53"
  shows "binary64 x = of_int (roundEven (x * 2 ^ k)) / 2 ^ k"
proof -
  have x0: "x \<noteq> 0" using assms(1) by auto
  have "\<lfloor>log 2 (\<bar>x\<bar> * 2 ^ k)\<rfloor> = 52"
    using floor_log2 [of 52 "\<bar>x\<bar> * 2 ^ k"] assms by simp
  moreover have "log 2 (\<bar>x\<bar> * 2 ^ k) = log 2 \<bar>x\<bar> + real k"
    using x0 by (simp add: log_mult log_nat_power)
  ultimately have "\<lfloor>log 2 \<bar>x\<bar>\<rfloor> + int k = 52"
    by simp
  then have e: "\<lfloor>log 2 \<bar>x\<bar>\<rfloor> = 52 - int k"
    by linarith
  have q: "(2::real) powr (- real k) = 1 / 2 ^ k"
    by (simp add: powr_minus powr_realpow divide_inverse)
  show ?thesis
    using x0 by (simp add: binary64_def Let_def e q)
qed

lemma binary64_error: "\<bar>binary64 x - x\<bar> \<le> 1 / 2 ^ 53 * \<bar>x\<bar>"
proof (cases "x = 0")
  case True
  then show ?thesis by (simp add: binary64_def)
next
  case False
  define e where "e = \<lfloor>log 2 \<bar>x\<bar>\<rfloor>"
  define q :: real where "q = 2 powr (of_int e - 52)"
  have qpos: "0 < q" by (simp add: q_def)
  have "of_int e \<le> log 2 \<bar>x\<bar>" by (simp add: e_def)
  then have lo: "2 powr of_int e \<le> \<bar>x\<bar>"
    using False by (simp add: le_log_iff)
  have b: "binary64 x = q * of_int (roundEven (x / q))"
    using False by (simp add: binary64_def Let_def e_def q_def)
  have "binary64 x - x = q * (of_int (roundEven (x / q)) - x / q)"
    using qpos by (simp add: b algebra_simps)
  then have "\<bar>binary64 x - x\<bar> = q * \<bar>of_int (roundEven (x / q)) - x / q\<bar>"
    using qpos by (simp add: abs_mult)
  also have "\<dots> \<le> q * (1 / 2)"
    using qpos roundEven_error [of "x / q"] by (intro mult_left_mono) simp_all
  also have "q * (1 / 2) = 2 powr of_int e * (1 / 2 ^ 53)"
    by (simp add: q_def powr_diff powr_realpow [symmetric])
  also have "\<dots> \<le> \<bar>x\<bar> * (1 / 2 ^ 53)"
    using lo by (intro mult_right_mono) simp_all
  finally show ?thesis by (simp add: mult.commute)
qed

lemma binary64_roundsWithin: "roundsWithin (1 / 2 ^ 53) binary64"
  unfolding roundsWithin_def using binary64_error by blast

text \<open>The values that the collision of the two stones above rounds to, one lemma for each
  rounding of the computation.\<close>

lemma b64_d02: "binary64 (1 / 5) = 3602879701896397 / 18014398509481984"
  using binary64_scaled [of "1 / 5" 55]
  by (simp add: roundEven_def)

lemma b64_d01: "binary64 (1 / 10) = 3602879701896397 / 36028797018963968"
  using binary64_scaled [of "1 / 10" 56]
  by (simp add: roundEven_def)

lemma b64_dx: "binary64 (3) = 3"
  using binary64_scaled [of "3" 51]
  by (simp add: roundEven_def)

lemma b64_dy: "binary64 (4) = 4"
  using binary64_scaled [of "4" 50]
  by (simp add: roundEven_def)

lemma b64_dxx: "binary64 (9) = 9"
  using binary64_scaled [of "9" 49]
  by (simp add: roundEven_def)

lemma b64_dyy: "binary64 (16) = 16"
  using binary64_scaled [of "16" 48]
  by (simp add: roundEven_def)

lemma b64_sum: "binary64 (25) = 25"
  using binary64_scaled [of "25" 48]
  by (simp add: roundEven_def)

lemma b64_d: "binary64 (5) = 5"
  using binary64_scaled [of "5" 50]
  by (simp add: roundEven_def)

lemma b64_mind: "binary64 (28) = 28"
  using binary64_scaled [of "28" 48]
  by (simp add: roundEven_def)

lemma b64_nx: "binary64 (3 / 5) = 5404319552844595 / 9007199254740992"
  using binary64_scaled [of "3 / 5" 53]
  by (simp add: roundEven_def)

lemma b64_ny: "binary64 (4 / 5) = 3602879701896397 / 4503599627370496"
  using binary64_scaled [of "4 / 5" 53]
  by (simp add: roundEven_def)

lemma b64_dvx: "binary64 (3602879701896397 / 18014398509481984) = 3602879701896397 / 18014398509481984"
  using binary64_scaled [of "3602879701896397 / 18014398509481984" 55]
  by (simp add: roundEven_def)

lemma b64_dvy: "binary64 (- (3602879701896397 / 36028797018963968)) = - (3602879701896397 / 36028797018963968)"
  using binary64_scaled [of "- (3602879701896397 / 36028797018963968)" 56]
  by (simp add: roundEven_def)

lemma b64_p1: "binary64 (19471113219505603967277331424215 / 162259276829213363391578010288128) = 1080863910568919 / 9007199254740992"
  using binary64_scaled [of "19471113219505603967277331424215 / 162259276829213363391578010288128" 56]
  by (simp add: roundEven_def)

lemma b64_p2: "binary64 (- (12980742146337070512478121581609 / 162259276829213363391578010288128)) = - (1441151880758559 / 18014398509481984)"
  using binary64_scaled [of "- (12980742146337070512478121581609 / 162259276829213363391578010288128)" 56]
  by (simp add: roundEven_def)

lemma b64_dv: "binary64 (720575940379279 / 18014398509481984) = 720575940379279 / 18014398509481984"
  using binary64_scaled [of "720575940379279 / 18014398509481984" 57]
  by (simp add: roundEven_def)

lemma b64_rest: "binary64 (17 / 20) = 7656119366529843 / 9007199254740992"
  using binary64_scaled [of "17 / 20" 53]
  by (simp add: roundEven_def)

lemma b64_imp: "binary64 (5516815412193251454995492323197 / 162259276829213363391578010288128) = 4899916394579097 / 144115188075855872"
  using binary64_scaled [of "5516815412193251454995492323197 / 162259276829213363391578010288128" 57]
  by (simp add: roundEven_def)

lemma b64_ty: "binary64 (17653809319018405376561515813509 / 649037107316853453566312041152512) = 1959966557831639 / 72057594037927936"
  using binary64_scaled [of "17653809319018405376561515813509 / 649037107316853453566312041152512" 58]
  by (simp add: roundEven_def)

lemma b64_avy: "binary64 (- (1959966557831639 / 72057594037927936)) = - (1959966557831639 / 72057594037927936)"
  using binary64_scaled [of "- (1959966557831639 / 72057594037927936)" 58]
  by (simp add: roundEven_def)

lemma b64_bvy: "binary64 (9165725961624433 / 72057594037927936) = 572857872601527 / 4503599627370496"
  using binary64_scaled [of "9165725961624433 / 72057594037927936" 55]
  by (simp add: roundEven_def)

lemmas b64_values =
  b64_d02 b64_d01 b64_dx b64_dy b64_dxx b64_dyy b64_sum b64_d b64_mind b64_nx b64_ny b64_dvx
  b64_dvy b64_p1 b64_p2 b64_dv b64_rest b64_imp b64_ty b64_avy b64_bvy

lemma resolveCollisionR_exact: "resolveCollisionR (\<lambda>x. x) a b = resolveCollision a b"
  by (simp add: resolveCollisionR_def resolveCollision_def Let_def)

lemma glancing_vy:
  "vy (fst (resolveCollisionR binary64 glancingA glancingB))
     = - (1959966557831639 / 72057594037927936)
   \<and> vy (snd (resolveCollisionR binary64 glancingA glancingB))
     = 572857872601527 / 4503599627370496"
  by (simp add: resolveCollisionR_def glancingA_def glancingB_def Stone_def Let_def
      STONE_RADIUS_def RESTITUTION_def sqrt_25 b64_values)

lemma exact_roundsWithin: "roundsWithin 0 (\<lambda>x. x)"
  by (simp add: roundsWithin_def)

lemma rounding_error_le:
  assumes "0 \<le> u" and "u < 1" and "roundsWithin u rd"
  shows "\<bar>rd y - y\<bar> \<le> u / (1 - u) * \<bar>rd y\<bar>"
proof -
  have e: "\<bar>rd y - y\<bar> \<le> u * \<bar>y\<bar>"
    using assms(3) by (simp add: roundsWithin_def)
  have "\<bar>y\<bar> \<le> \<bar>rd y\<bar> + \<bar>rd y - y\<bar>"
    by linarith
  with e have "(1 - u) * \<bar>y\<bar> \<le> \<bar>rd y\<bar>"
    by (simp add: algebra_simps)
  then have "\<bar>y\<bar> \<le> \<bar>rd y\<bar> / (1 - u)"
    using assms(2) by (simp add: pos_le_divide_eq mult.commute)
  then have "u * \<bar>y\<bar> \<le> u * (\<bar>rd y\<bar> / (1 - u))"
    using assms(1) by (rule mult_left_mono)
  with e show ?thesis
    by simp
qed

lemma opposite_updates:
  assumes "0 \<le> u" and "u < 1" and "roundsWithin u rd"
  shows "\<bar>rd (va - t) + rd (vb + t) - (va + vb)\<bar>
           \<le> u / (1 - u) * (\<bar>rd (va - t)\<bar> + \<bar>rd (vb + t)\<bar>)"
proof -
  have "\<bar>rd (va - t) + rd (vb + t) - (va + vb)\<bar>
          \<le> \<bar>rd (va - t) - (va - t)\<bar> + \<bar>rd (vb + t) - (vb + t)\<bar>"
    by linarith
  also have "\<dots> \<le> u / (1 - u) * \<bar>rd (va - t)\<bar> + u / (1 - u) * \<bar>rd (vb + t)\<bar>"
    by (intro add_mono rounding_error_le [OF assms])
  finally show ?thesis
    by (simp add: algebra_simps)
qed

lemma resolveCollisionR_velocities:
  "resolveCollisionR rd a b = (a, b)
   \<or> (\<exists>tx ty. vx (fst (resolveCollisionR rd a b)) = rd (vx a - tx)
              \<and> vx (snd (resolveCollisionR rd a b)) = rd (vx b + tx)
              \<and> vy (fst (resolveCollisionR rd a b)) = rd (vy a - ty)
              \<and> vy (snd (resolveCollisionR rd a b)) = rd (vy b + ty))"
  by (simp add: resolveCollisionR_def Let_def) blast

text \<open>
  Claim C10, amended. On every path through \<open>resolveCollision\<close> the two velocities are
  either left as they are or updated with the same rounded impulse term, subtracted
  from one stone and added to the other. So if each rounding has a relative error of at
  most \<open>u < 1\<close>, the sum of the two velocities changes, in each component, by at most
  \<open>u / (1 - u)\<close> times the sum of the absolute values of the two new velocities. For
  doubles \<open>u\<close> is \<open>1 / 2 ^ 53\<close>; in exact arithmetic \<open>u\<close> is 0 and the sum is unchanged.
\<close>

theorem resolveCollisionR_momentum:
  assumes "0 \<le> u" and "u < 1" and "roundsWithin u rd"
  shows "\<bar>vx (fst (resolveCollisionR rd a b)) + vx (snd (resolveCollisionR rd a b))
            - (vx a + vx b)\<bar>
           \<le> u / (1 - u) * (\<bar>vx (fst (resolveCollisionR rd a b))\<bar>
                              + \<bar>vx (snd (resolveCollisionR rd a b))\<bar>)
         \<and> \<bar>vy (fst (resolveCollisionR rd a b)) + vy (snd (resolveCollisionR rd a b))
            - (vy a + vy b)\<bar>
           \<le> u / (1 - u) * (\<bar>vy (fst (resolveCollisionR rd a b))\<bar>
                              + \<bar>vy (snd (resolveCollisionR rd a b))\<bar>)"
proof -
  have k: "0 \<le> u / (1 - u)"
    using assms(1,2) by simp
  from resolveCollisionR_velocities [of rd a b] show ?thesis
  proof
    assume same: "resolveCollisionR rd a b = (a, b)"
    have "0 \<le> u / (1 - u) * (\<bar>vx a\<bar> + \<bar>vx b\<bar>)"
      "0 \<le> u / (1 - u) * (\<bar>vy a\<bar> + \<bar>vy b\<bar>)"
      using k by (intro mult_nonneg_nonneg; simp)+
    then show ?thesis
      unfolding same by simp
  next
    assume "\<exists>tx ty. vx (fst (resolveCollisionR rd a b)) = rd (vx a - tx)
              \<and> vx (snd (resolveCollisionR rd a b)) = rd (vx b + tx)
              \<and> vy (fst (resolveCollisionR rd a b)) = rd (vy a - ty)
              \<and> vy (snd (resolveCollisionR rd a b)) = rd (vy b + ty)"
    then obtain tx ty where
      "vx (fst (resolveCollisionR rd a b)) = rd (vx a - tx)"
      "vx (snd (resolveCollisionR rd a b)) = rd (vx b + tx)"
      "vy (fst (resolveCollisionR rd a b)) = rd (vy a - ty)"
      "vy (snd (resolveCollisionR rd a b)) = rd (vy b + ty)"
      by blast
    then show ?thesis
      using opposite_updates [OF assms, of "vx a" tx "vx b"]
        opposite_updates [OF assms, of "vy a" ty "vy b"]
      by simp
  qed
qed

theorem resolveCollisionR_momentum_witness:
  "roundsWithin (1 / 2 ^ 53) binary64
   \<and> \<bar>vy (fst (resolveCollisionR binary64 glancingA glancingB))
        + vy (snd (resolveCollisionR binary64 glancingA glancingB))
        - (vy glancingA + vy glancingB)\<bar>
      \<le> (1 / 2 ^ 53) / (1 - 1 / 2 ^ 53)
          * (\<bar>vy (fst (resolveCollisionR binary64 glancingA glancingB))\<bar>
             + \<bar>vy (snd (resolveCollisionR binary64 glancingA glancingB))\<bar>)"
proof -
  have u: "(0::real) \<le> 1 / 2 ^ 53" "(1::real) / 2 ^ 53 < 1"
    by simp_all
  from resolveCollisionR_momentum [OF u binary64_roundsWithin, of glancingA glancingB]
    binary64_roundsWithin
  show ?thesis
    by blast
qed

text \<open>
  Claim C10, as the specification states it, fails: with the stones at (0, 0) and
  (3, 4) and the velocities 0.2 along x and 0.1 along y, the two updates of the y
  velocity round differently, and their sum after the call is one unit in the last
  place below the sum before it.
\<close>

theorem rounded_momentum_changes:
  "vy glancingA + vy glancingB = 3602879701896397 / 36028797018963968
   \<and> vy (fst (resolveCollisionR binary64 glancingA glancingB))
       + vy (snd (resolveCollisionR binary64 glancingA glancingB))
     = 7205759403792793 / 72057594037927936"
  by (simp add: glancing_vy) (simp add: glancingA_def glancingB_def Stone_def b64_d01)

section \<open>The signal that ends a throw\<close>

text \<open>
  Claim C5, as the specification states it, fails: \<open>isMoving\<close> never reads the
  \<open>active\<close> flag, so a retired stone that carries a velocity makes \<open>anyMoving\<close> true
  although no active stone moves.
\<close>

theorem anyMoving_counts_retired_stone:
  "anyMoving retiredButMoving \<and> \<not> someActiveMoving retiredButMoving"
  by (simp add: anyMoving_def someActiveMoving_def retiredButMoving_def isMoving_def
      speed_def Stone_def MIN_VELOCITY_def)

text \<open>
  Claim C5, amended. \<open>anyMoving\<close> is true exactly when some stone of the collection,
  active or not, is faster than the minimum velocity; it agrees with "some active stone
  is faster than the minimum velocity" on every collection whose retired stones are no
  faster than the threshold.
\<close>

theorem anyMoving_all_stones:
  "(anyMoving p \<longleftrightarrow> (\<exists>s \<in> set (stones p). speed s > MIN_VELOCITY))
   \<and> (retiredAtRest p \<longrightarrow> anyMoving p = someActiveMoving p)"
  by (auto simp add: anyMoving_def someActiveMoving_def retiredAtRest_def list_ex_iff
      isMoving_def)

theorem anyMoving_all_stones_witness:
  "retiredAtRest oneLiveOneRetired
   \<and> anyMoving oneLiveOneRetired \<and> someActiveMoving oneLiveOneRetired"
proof -
  have h: "retiredAtRest oneLiveOneRetired"
    by (simp add: retiredAtRest_def oneLiveOneRetired_def Stone_def speed_def MIN_VELOCITY_def)
  have m: "someActiveMoving oneLiveOneRetired"
    by (simp add: someActiveMoving_def oneLiveOneRetired_def Stone_def speed_def
        MIN_VELOCITY_def)
  from anyMoving_all_stones [of oneLiveOneRetired] h m show ?thesis
    by blast
qed

section \<open>The kinematics tick\<close>

lemma zoneLoop_eq: "zoneLoop zf s zs f0 = (if \<exists>z \<in> set zs. withinZone s z then zf else f0)"
  by (induction zs) auto

text \<open>
  Claim C7. A tick of an active stone first adds the velocity to the position. The
  velocity is then multiplied by the swept friction if the moved centre is closer to the
  centre of some swept zone than that zone's radius plus half the stone radius (also
  when a rough zone applies as well), otherwise by the rough friction if this holds of
  some rough zone, otherwise by \<open>ICE_FRICTION - (currentEnd - 1) * FRICTION_DEGRADATION\<close>;
  and if the speed that results is below \<open>MIN_VELOCITY\<close>, both velocity components are
  set to zero. The zone test is the strict comparison of the distance between the moved
  centre and the centre of the zone with the zone's radius plus half the stone radius.
\<close>

theorem stone_update_friction:
  assumes "active s"
  shows "stone_update sw ro ce s =
     (let f = specFriction sw ro ce (moved s);
          s2 = (moved s)\<lparr>vx := vx s * f, vy := vy s * f\<rparr>
      in if speed s2 < MIN_VELOCITY then s2\<lparr>vx := 0, vy := 0\<rparr> else s2)
     \<and> (withinZone (moved s) z \<longleftrightarrow>
          sqrt ((pos_x s + vx s - z_x z)\<^sup>2 + (pos_y s + vy s - z_y z)\<^sup>2)
            < z_radius z + radius s / 2)"
proof
  show "stone_update sw ro ce s =
     (let f = specFriction sw ro ce (moved s);
          s2 = (moved s)\<lparr>vx := vx s * f, vy := vy s * f\<rparr>
      in if speed s2 < MIN_VELOCITY then s2\<lparr>vx := 0, vy := 0\<rparr> else s2)"
    using assms by (simp add: stone_update_def Let_def zoneLoop_eq specFriction_def moved_def)
  show "withinZone (moved s) z \<longleftrightarrow>
          sqrt ((pos_x s + vx s - z_x z)\<^sup>2 + (pos_y s + vy s - z_y z)\<^sup>2)
            < z_radius z + radius s / 2"
    by (simp add: withinZone_def moved_def Let_def power2_eq_square)
qed

theorem stone_update_friction_witness:
  "active slidingStone
   \<and> stone_update [patch] [patch] 1 slidingStone
       = slidingStone\<lparr>pos_y := 498, vy := - (1996 / 1000)\<rparr>"
  using stone_update_friction [of slidingStone "[patch]" "[patch]" 1 patch, THEN conjunct1]
  by (simp add: slidingStone_def patch_def Stone_def specFriction_def moved_def withinZone_def
      speed_vx0 constants_defs)

section \<open>Friction over several ticks\<close>

lemma stone_update_active: "active (stone_update sw ro ce s) = active s"
  by (simp add: stone_update_def Let_def)

lemma ticks_active: "active (ticks sw ro ce n s) = active s"
  by (induction n) (simp_all add: stone_update_active)

lemma speed_nonneg: "0 \<le> speed s"
  by (simp add: speed_def)

lemma speed_scaled:
  "0 \<le> f \<Longrightarrow> speed (s\<lparr>vx := vx s * f, vy := vy s * f\<rparr>) = speed s * f"
proof -
  assume f: "0 \<le> f"
  have "vx s * f * (vx s * f) + vy s * f * (vy s * f)
          = (vx s * vx s + vy s * vy s) * (f * f)"
    by (simp add: algebra_simps)
  then show ?thesis
    using f by (simp add: speed_def real_sqrt_mult)
qed

lemma speed_stone_update:
  assumes "active s" and "specFriction sw ro ce (moved s) = f" and "0 \<le> f"
  shows "speed (stone_update sw ro ce s)
           = (if speed s * f < MIN_VELOCITY then 0 else speed s * f)"
proof -
  have "speed ((moved s)\<lparr>vx := vx s * f, vy := vy s * f\<rparr>) = speed s * f"
    using speed_scaled [OF assms(3), of "moved s"] by (simp add: moved_def speed_def)
  then show ?thesis
    using assms(1,2)
    by (simp add: stone_update_def Let_def zoneLoop_eq specFriction_def moved_def)
      (simp add: speed_def)
qed

lemma speed_ticks:
  assumes "active s"
    and "\<forall>k < n. specFriction sw ro ce (moved (ticks sw ro ce k s)) = f"
    and "0 \<le> f" and "f \<le> 1" and "1 \<le> n"
  shows "speed (ticks sw ro ce n s)
           = (if speed s * f ^ n < MIN_VELOCITY then 0 else speed s * f ^ n)"
  using assms(2,5)
proof (induction n)
  case 0
  then show ?case by simp
next
  case (Suc n)
  have act: "active (ticks sw ro ce n s)"
    using assms(1) by (simp add: ticks_active)
  have fr: "specFriction sw ro ce (moved (ticks sw ro ce n s)) = f"
    using Suc.prems(1) by simp
  have step: "speed (ticks sw ro ce (Suc n) s)
      = (if speed (ticks sw ro ce n s) * f < MIN_VELOCITY then 0
         else speed (ticks sw ro ce n s) * f)"
    using speed_stone_update [OF act fr assms(3)] by simp
  show ?case
  proof (cases "n = 0")
    case True
    then show ?thesis using step by simp
  next
    case False
    then have ih: "speed (ticks sw ro ce n s)
           = (if speed s * f ^ n < MIN_VELOCITY then 0 else speed s * f ^ n)"
      using Suc.IH Suc.prems(1) by simp
    show ?thesis
    proof (cases "speed s * f ^ n < MIN_VELOCITY")
      case True
      have "speed s * f ^ n * f \<le> speed s * f ^ n * 1"
        using assms(3,4) speed_nonneg [of s] by (intro mult_left_mono) simp_all
      with True have "speed s * f ^ n * f < MIN_VELOCITY"
        by linarith
      moreover have "speed s * f ^ Suc n = speed s * f ^ n * f"
        by simp
      ultimately have "speed s * f ^ Suc n < MIN_VELOCITY"
        by (simp only:)
      with True show ?thesis
        using step ih by (simp add: MIN_VELOCITY_def)
    next
      case False
      have "speed s * f ^ Suc n = speed s * f ^ n * f"
        by simp
      moreover have "speed (ticks sw ro ce n s) = speed s * f ^ n"
        using False ih by simp
      ultimately show ?thesis
        unfolding step by (simp only:)
    qed
  qed
qed

lemma rough_run_friction:
  "staysOnRough sw ro ce n s \<Longrightarrow> k < n
     \<Longrightarrow> specFriction sw ro ce (moved (ticks sw ro ce k s)) = ROUGH_FRICTION"
  by (simp add: staysOnRough_def specFriction_def)

lemma swept_run_friction:
  "staysOnSwept sw ro ce n s \<Longrightarrow> k < n
     \<Longrightarrow> specFriction sw ro ce (moved (ticks sw ro ce k s)) = SWEPT_FRICTION"
  by (simp add: staysOnSwept_def specFriction_def)

text \<open>
  Claim C9, amended. Take an active stone, an end number and \<open>n \<ge> 1\<close> ticks. If in one
  run the stone is on rough, unswept ice at every tick and in another run it is on swept
  ice at every tick, then its speed after the rough run is at most its speed after the
  swept run, and it is strictly smaller exactly when the stone is still moving after the
  swept run, that is when the initial speed times \<open>SWEPT_FRICTION ^ n\<close> is not below
  \<open>MIN_VELOCITY\<close>. Otherwise the hard stop has brought both runs to speed 0.
\<close>

theorem rough_slower_than_swept:
  assumes "active s" and "1 \<le> n"
    and "staysOnRough sw1 ro1 ce n s"
    and "staysOnSwept sw2 ro2 ce n s"
  shows "speed (ticks sw1 ro1 ce n s) \<le> speed (ticks sw2 ro2 ce n s)
         \<and> (speed (ticks sw1 ro1 ce n s) < speed (ticks sw2 ro2 ce n s)
              \<longleftrightarrow> 0 < speed (ticks sw2 ro2 ce n s))
         \<and> (0 < speed (ticks sw2 ro2 ce n s)
              \<longleftrightarrow> MIN_VELOCITY \<le> speed s * SWEPT_FRICTION ^ n)"
proof -
  have R: "speed (ticks sw1 ro1 ce n s)
      = (if speed s * ROUGH_FRICTION ^ n < MIN_VELOCITY then 0
         else speed s * ROUGH_FRICTION ^ n)"
    using rough_run_friction [OF assms(3)]
    by (intro speed_ticks [OF assms(1) _ _ _ assms(2)]) (simp_all add: ROUGH_FRICTION_def)
  have S: "speed (ticks sw2 ro2 ce n s)
      = (if speed s * SWEPT_FRICTION ^ n < MIN_VELOCITY then 0
         else speed s * SWEPT_FRICTION ^ n)"
    using swept_run_friction [OF assms(4)]
    by (intro speed_ticks [OF assms(1) _ _ _ assms(2)]) (simp_all add: SWEPT_FRICTION_def)
  have pw: "ROUGH_FRICTION ^ n < SWEPT_FRICTION ^ n"
    using assms(2)
    by (intro power_strict_mono) (simp_all add: ROUGH_FRICTION_def SWEPT_FRICTION_def)
  have le: "speed s * ROUGH_FRICTION ^ n \<le> speed s * SWEPT_FRICTION ^ n"
    using pw speed_nonneg [of s] by (intro mult_left_mono) simp_all
  have lt: "speed s * ROUGH_FRICTION ^ n < speed s * SWEPT_FRICTION ^ n" if "0 < speed s"
    using pw that by simp
  have Mpos: "0 < MIN_VELOCITY" by (simp add: MIN_VELOCITY_def)
  show ?thesis
  proof (cases "speed s * SWEPT_FRICTION ^ n < MIN_VELOCITY")
    case True
    then have "speed s * ROUGH_FRICTION ^ n < MIN_VELOCITY" using le by simp
    with True show ?thesis by (simp add: R S)
  next
    case False
    then have sp: "0 < speed s"
      using Mpos speed_nonneg [of s] by (cases "speed s = 0") auto
    have "0 < speed s * SWEPT_FRICTION ^ n" using False Mpos by simp
    with False lt [OF sp] show ?thesis
      by (simp add: R S)
  qed
qed

lemmas eval_tick = stone_update_def withinZone_def speed_vx0 Let_def constants_defs

lemma creeping_rough:
  "stone_update [] [patch] 1 creeping = creeping\<lparr>pos_y := 500 - 601 / 10000, vy := 0\<rparr>"
  by (simp add: creeping_def patch_def Stone_def eval_tick sqrt_cmp)

lemma creeping_swept:
  "stone_update [patch] [] 1 creeping = creeping\<lparr>pos_y := 500 - 601 / 10000, vy := 0\<rparr>"
  by (simp add: creeping_def patch_def Stone_def eval_tick sqrt_cmp)

text \<open>
  Claim C9, as the specification states it, fails: a stone moving at 0.0601 per tick is
  stopped by the first tick on rough ice and on swept ice alike, so the two speeds are
  equal.
\<close>

theorem rough_not_strictly_slower:
  "active creeping \<and> isMoving creeping
   \<and> staysOnRough [] [patch] 1 1 creeping \<and> staysOnSwept [patch] [] 1 1 creeping
   \<and> speed (ticks [] [patch] 1 1 creeping) = 0
   \<and> speed (ticks [patch] [] 1 1 creeping) = 0"
  by (simp add: creeping_rough creeping_swept)
    (simp add: staysOnRough_def staysOnSwept_def isMoving_def creeping_def patch_def Stone_def
      moved_def withinZone_def speed_vx0 constants_defs sqrt_cmp)

lemma sliding_rough1:
  "stone_update [] [patch] 1 slidingStone = slidingStone\<lparr>pos_y := 498, vy := - (192 / 100)\<rparr>"
  by (simp add: slidingStone_def patch_def Stone_def eval_tick sqrt_cmp)

lemma sliding_swept1:
  "stone_update [patch] [] 1 slidingStone
     = slidingStone\<lparr>pos_y := 498, vy := - (1996 / 1000)\<rparr>"
  by (simp add: slidingStone_def patch_def Stone_def eval_tick sqrt_cmp)

theorem rough_slower_than_swept_witness:
  "active slidingStone \<and> (1::nat) \<le> 2
   \<and> staysOnRough [] [patch] 1 2 slidingStone \<and> staysOnSwept [patch] [] 1 2 slidingStone
   \<and> speed (ticks [] [patch] 1 2 slidingStone) < speed (ticks [patch] [] 1 2 slidingStone)"
proof -
  have a: "active slidingStone"
    by (simp add: slidingStone_def Stone_def)
  have r: "staysOnRough [] [patch] 1 2 slidingStone"
    unfolding staysOnRough_def less_2_cases_iff
    by (simp add: sliding_rough1)
      (simp add: slidingStone_def patch_def Stone_def moved_def withinZone_def constants_defs
        sqrt_cmp)
  have w: "staysOnSwept [patch] [] 1 2 slidingStone"
    unfolding staysOnSwept_def less_2_cases_iff
    by (simp add: sliding_swept1)
      (simp add: slidingStone_def patch_def Stone_def moved_def withinZone_def constants_defs
        sqrt_cmp)
  have m: "MIN_VELOCITY \<le> speed slidingStone * SWEPT_FRICTION ^ 2"
    by (simp add: slidingStone_def Stone_def speed_vx0 constants_defs power2_eq_square)
  from rough_slower_than_swept [OF a _ r w] m a r w show ?thesis
    by simp
qed

section \<open>Scoring\<close>

lemma inHouse_alt: "inHouse sts = sort_key snd (map entryOf (candidates sts))"
  by (simp add: inHouse_def candidates_def entryOf_def [abs_def])

lemma inHouse_sorted: "sorted (map snd (inHouse sts))"
  by (simp add: inHouse_alt)

lemma inHouse_set: "set (inHouse sts) = entryOf ` set (candidates sts)"
  by (simp add: inHouse_alt)

lemma inHouse_mset: "mset (inHouse sts) = image_mset entryOf (mset (candidates sts))"
  by (simp add: inHouse_alt)

lemma inHouse_Nil: "inHouse sts = [] \<longleftrightarrow> candidates sts = []"
  using inHouse_set [of sts] by (metis image_is_empty set_empty)

lemma closerThan_find:
  "sorted (map snd xs) \<Longrightarrow>
   closerThan d (map_option snd (find Q xs)) \<longleftrightarrow> (\<forall>t \<in> set xs. Q t \<longrightarrow> d < snd t)"
proof (induction xs)
  case Nil
  then show ?case by simp
next
  case (Cons x xs)
  then show ?case by (cases "Q x") force+
qed

lemma sorted_head_least:
  "sorted (map snd (e # es)) \<Longrightarrow> t \<in> set (e # es) \<Longrightarrow> snd e \<le> snd t"
  by auto

lemma length_filter_inHouse:
  "length (filter R (inHouse sts)) = length (filter (\<lambda>s. R (entryOf s)) (candidates sts))"
proof -
  have "length (filter R (inHouse sts)) = size (filter_mset R (mset (inHouse sts)))"
    by (metis mset_filter size_mset)
  also have "\<dots> = size (filter_mset (\<lambda>s. R (entryOf s)) (mset (candidates sts)))"
    by (simp add: inHouse_mset filter_mset_image_mset comp_def)
  also have "\<dots> = length (filter (\<lambda>s. R (entryOf s)) (candidates sts))"
    by (metis mset_filter size_mset)
  finally show ?thesis .
qed

text \<open>The result in terms of the head of the sorted array.\<close>

lemma calculateScore_Cons:
  assumes "inHouse sts = e # es"
  shows "calculateScore sts =
     \<lparr>r_team = fst e,
      r_points = length (filter (\<lambda>s. team s = fst e
                   \<and> (\<forall>q \<in> set (candidates sts).
                          team q \<noteq> fst e \<longrightarrow> distToButton s < distToButton q))
                 (candidates sts))\<rparr>"
proof -
  have srt: "sorted (map snd (e # es))"
    using inHouse_sorted [of sts] assms by simp
  have "length (filter (\<lambda>s. fst s = fst e
                  \<and> closerThan (snd s) (map_option snd (find (\<lambda>s. fst s \<noteq> fst e) (e # es))))
                (e # es))
      = length (filter (\<lambda>s. fst s = fst e
                  \<and> (\<forall>t \<in> set (inHouse sts). fst t \<noteq> fst e \<longrightarrow> snd s < snd t))
                (inHouse sts))"
    unfolding closerThan_find [OF srt] assms ..
  also have "\<dots> = length (filter (\<lambda>s. team s = fst e
                   \<and> (\<forall>q \<in> set (candidates sts).
                          team q \<noteq> fst e \<longrightarrow> distToButton s < distToButton q))
                 (candidates sts))"
    unfolding length_filter_inHouse inHouse_set by (simp add: entryOf_def)
  finally show ?thesis
    unfolding calculateScore_def assms by (simp only: list.case Let_def)
qed

lemma inHouse_head:
  assumes "inHouse sts = e # es"
  shows "\<exists>c \<in> set (candidates sts). fst e = team c \<and> snd e = distToButton c
           \<and> (\<forall>s \<in> set (candidates sts). distToButton c \<le> distToButton s)"
proof -
  have "e \<in> set (inHouse sts)" using assms by simp
  then obtain c where c: "c \<in> set (candidates sts)" "e = entryOf c"
    unfolding inHouse_set by blast
  have "distToButton c \<le> distToButton s" if "s \<in> set (candidates sts)" for s
  proof -
    have "entryOf s \<in> set (e # es)" using that inHouse_set [of sts] assms by auto
    moreover have "sorted (map snd (e # es))" using inHouse_sorted [of sts] assms by simp
    ultimately have "snd e \<le> snd (entryOf s)" by (rule sorted_head_least [rotated])
    then show ?thesis by (simp add: c entryOf_def)
  qed
  with c show ?thesis by (auto simp: entryOf_def)
qed

lemma distToButton_centre:
  "distToButton st = sqrt ((pos_x st - 120)\<^sup>2 + (pos_y st - 120)\<^sup>2)"
  by (simp add: distToButton_def houseCenter_def constants_defs Let_def power2_eq_square)

lemma calculateScore_blank:
  assumes "candidates sts = []"
  shows "calculateScore sts = \<lparr>r_team = - 1, r_points = 0\<rparr>"
proof -
  from assms have "inHouse sts = []"
    by (simp add: inHouse_Nil)
  then show ?thesis
    by (simp add: calculateScore_def)
qed

text \<open>
  Claim C2. \<open>calculateScore\<close> considers exactly the active stones whose distance to the
  button is at most the house radius plus the stone radius. With none it returns the
  blank result (team -1, 0 points). Otherwise the team it returns is that of a considered
  stone that no considered stone is closer than, and the points are the number of
  considered stones of that team that are strictly closer than every considered stone of
  another team (all of them when there is none). In particular two red stones at
  distances 10 and 20 and a yellow stone at distance 15 give red 1 point. The distance
  is measured from the centre of the house at (120, 120), and the bound is 104.
\<close>

theorem calculateScore_spec:
  "(candidates sts = [] \<longrightarrow> calculateScore sts = \<lparr>r_team = - 1, r_points = 0\<rparr>)
   \<and> (candidates sts \<noteq> [] \<longrightarrow>
        (\<exists>c \<in> set (candidates sts).
            (\<forall>s \<in> set (candidates sts). distToButton c \<le> distToButton s)
            \<and> r_team (calculateScore sts) = team c)
        \<and> r_points (calculateScore sts)
            = length (filter (\<lambda>s. team s = r_team (calculateScore sts)
                   \<and> (\<forall>q \<in> set (candidates sts). team q \<noteq> r_team (calculateScore sts)
                          \<longrightarrow> distToButton s < distToButton q))
                 (candidates sts)))
   \<and> (active a \<and> active b \<and> active c \<and> team a = 0 \<and> team b = 0 \<and> team c = 1
        \<and> distToButton a = 10 \<and> distToButton b = 20 \<and> distToButton c = 15
        \<longrightarrow> calculateScore [a, b, c] = \<lparr>r_team = 0, r_points = 1\<rparr>)
   \<and> distToButton st = sqrt ((pos_x st - 120)\<^sup>2 + (pos_y st - 120)\<^sup>2)
   \<and> maxDist = 104"
proof (intro conjI impI)
  assume "candidates sts = []"
  then show "calculateScore sts = \<lparr>r_team = - 1, r_points = 0\<rparr>"
    by (rule calculateScore_blank)
next
  assume ne: "candidates sts \<noteq> []"
  then obtain e es where ih: "inHouse sts = e # es"
    using inHouse_Nil [of sts] by (cases "inHouse sts") auto
  from inHouse_head [OF ih] calculateScore_Cons [OF ih]
  show "\<exists>c \<in> set (candidates sts).
            (\<forall>s \<in> set (candidates sts). distToButton c \<le> distToButton s)
            \<and> r_team (calculateScore sts) = team c"
    by auto
  show "r_points (calculateScore sts)
            = length (filter (\<lambda>s. team s = r_team (calculateScore sts)
                   \<and> (\<forall>q \<in> set (candidates sts). team q \<noteq> r_team (calculateScore sts)
                          \<longrightarrow> distToButton s < distToButton q))
                 (candidates sts))"
    by (simp add: calculateScore_Cons [OF ih])
next
  assume "active a \<and> active b \<and> active c \<and> team a = 0 \<and> team b = 0 \<and> team c = 1
        \<and> distToButton a = 10 \<and> distToButton b = 20 \<and> distToButton c = 15"
  then show "calculateScore [a, b, c] = \<lparr>r_team = 0, r_points = 1\<rparr>"
    by (simp add: calculateScore_def inHouse_def maxDist_def constants_defs)
next
  show "distToButton st = sqrt ((pos_x st - 120)\<^sup>2 + (pos_y st - 120)\<^sup>2)"
    by (rule distToButton_centre)
next
  show "maxDist = 104"
    by (simp add: maxDist_def constants_defs)
qed

lemma sqrt_100: "sqrt 100 = 10"
  using real_sqrt_abs2 [of 10] by simp

lemma sqrt_225: "sqrt 225 = 15"
  using real_sqrt_abs2 [of 15] by simp

lemma sqrt_400: "sqrt 400 = 20"
  using real_sqrt_abs2 [of 20] by simp

lemma dist_red10: "distToButton red10 = 10"
  by (simp add: distToButton_def red10_def Stone_def houseCenter_def constants_defs sqrt_100)

lemma dist_red20: "distToButton red20 = 20"
  by (simp add: distToButton_def red20_def Stone_def houseCenter_def constants_defs sqrt_400)

lemma dist_yellow15: "distToButton yellow15 = 15"
  by (simp add: distToButton_def yellow15_def Stone_def houseCenter_def constants_defs sqrt_225)

lemma dist_yellow10: "distToButton yellow10 = 10"
  by (simp add: distToButton_def yellow10_def Stone_def houseCenter_def constants_defs sqrt_100)

lemma demo_fields:
  "active red10" "active red20" "active yellow15" "active yellow10"
  "team red10 = 0" "team red20 = 0" "team yellow15 = 1" "team yellow10 = 1"
  by (simp_all add: red10_def red20_def yellow15_def yellow10_def Stone_def)

theorem calculateScore_spec_witness:
  "candidates [red10, red20, yellow15] \<noteq> []
   \<and> distToButton red10 = 10 \<and> distToButton red20 = 20 \<and> distToButton yellow15 = 15
   \<and> calculateScore [red10, red20, yellow15] = \<lparr>r_team = 0, r_points = 1\<rparr>"
proof -
  have ne: "candidates [red10, red20, yellow15] \<noteq> []"
    by (simp add: candidates_def demo_fields dist_red10 maxDist_def constants_defs)
  from calculateScore_spec [of "[red10, red20, yellow15]" red10 red20 yellow15 red10] ne
  show ?thesis
    by (simp add: demo_fields dist_red10 dist_red20 dist_yellow15)
qed

text \<open>
  Claim C3, as the specification states it, fails: with a red and a yellow stone at the
  same distance from the button, the team returned is that of the stone that comes first
  in the array.
\<close>

theorem calculateScore_order_counterexample:
  "mset [yellow10, red10] = mset [red10, yellow10]
   \<and> calculateScore [red10, yellow10] = \<lparr>r_team = 0, r_points = 0\<rparr>
   \<and> calculateScore [yellow10, red10] = \<lparr>r_team = 1, r_points = 0\<rparr>"
  by (simp add: calculateScore_def inHouse_def demo_fields dist_red10 dist_yellow10 maxDist_def
      constants_defs)

lemma candidates_perm:
  "mset sts' = mset sts \<Longrightarrow> mset (candidates sts') = mset (candidates sts)"
  unfolding candidates_def by (metis mset_filter)

lemma length_filter_perm:
  "mset xs = mset ys \<Longrightarrow> length (filter P xs) = length (filter P ys)"
  by (metis mset_filter size_mset)

lemma no_points_beside_rival:
  assumes "q \<in> set H" and "team q \<noteq> t" and "\<forall>u \<in> set H. distToButton q \<le> distToButton u"
  shows "filter (\<lambda>s. team s = t
                  \<and> (\<forall>q \<in> set H. team q \<noteq> t \<longrightarrow> distToButton s < distToButton q)) H = []"
  using assms by (fastforce simp: filter_empty_conv)

text \<open>
  Claim C3, amended. On a permutation of the stones \<open>calculateScore\<close> returns the same
  points; it returns the same team as well unless two considered stones of different
  teams are both closest to the button, and in that case the points are 0. The distance
  is measured from the centre of the house at (120, 120).
\<close>

theorem calculateScore_permutation:
  assumes "mset sts' = mset sts"
  shows "r_points (calculateScore sts') = r_points (calculateScore sts)
         \<and> (\<not> crossTeamTie sts \<longrightarrow> r_team (calculateScore sts') = r_team (calculateScore sts))
         \<and> (crossTeamTie sts \<longrightarrow> r_points (calculateScore sts) = 0)
         \<and> distToButton st = sqrt ((pos_x st - 120)\<^sup>2 + (pos_y st - 120)\<^sup>2)"
proof -
  have main: "r_points (calculateScore sts') = r_points (calculateScore sts)
         \<and> (\<not> crossTeamTie sts \<longrightarrow> r_team (calculateScore sts') = r_team (calculateScore sts))
         \<and> (crossTeamTie sts \<longrightarrow> r_points (calculateScore sts) = 0)"
  proof (cases "candidates sts = []")
    case True
    then have "candidates sts' = []"
      using candidates_perm [OF assms] by (metis mset_zero_iff)
    with True show ?thesis
      by (simp add: calculateScore_blank crossTeamTie_def)
  next
    case False
    define H where "H = candidates sts"
    have pm: "mset (candidates sts') = mset H"
      unfolding H_def by (rule candidates_perm [OF assms])
    then have st: "set (candidates sts') = set H"
      by (rule mset_eq_setD)
    have ne': "candidates sts' \<noteq> []"
      using False pm H_def by (metis mset_zero_iff)
    obtain e es where ih: "inHouse sts = e # es"
      using False inHouse_Nil [of sts] by (cases "inHouse sts") auto
    obtain e' es' where ih': "inHouse sts' = e' # es'"
      using ne' inHouse_Nil [of sts'] by (cases "inHouse sts'") auto
    define N where "N t = length (filter (\<lambda>s. team s = t
       \<and> (\<forall>q \<in> set H. team q \<noteq> t \<longrightarrow> distToButton s < distToButton q)) H)" for t
    have r: "calculateScore sts = \<lparr>r_team = fst e, r_points = N (fst e)\<rparr>"
      unfolding N_def H_def by (rule calculateScore_Cons [OF ih])
    have r': "calculateScore sts' = \<lparr>r_team = fst e', r_points = N (fst e')\<rparr>"
      unfolding N_def calculateScore_Cons [OF ih'] st
      by (simp add: length_filter_perm [OF pm])
    obtain c where c: "c \<in> set H" "fst e = team c"
      "\<forall>s \<in> set H. distToButton c \<le> distToButton s"
      using inHouse_head [OF ih] unfolding H_def by blast
    obtain c' where c': "c' \<in> set H" "fst e' = team c'"
      "\<forall>s \<in> set H. distToButton c' \<le> distToButton s"
      using inHouse_head [OF ih'] unfolding st by blast
    have zero: "N t = 0"
      if "q \<in> set H" "team q \<noteq> t" "\<forall>u \<in> set H. distToButton q \<le> distToButton u" for q t
      unfolding N_def using no_points_beside_rival [OF that] by simp
    have pts: "N (fst e') = N (fst e)"
    proof (cases "fst e' = fst e")
      case True
      then show ?thesis by simp
    next
      case False
      then have "N (fst e) = 0" "N (fst e') = 0"
        using zero [OF c'(1) _ c'(3), of "fst e"] zero [OF c(1) _ c(3), of "fst e'"] c(2) c'(2)
        by auto
      then show ?thesis by simp
    qed
    have tm: "fst e' = fst e" if "\<not> crossTeamTie sts"
    proof (rule ccontr)
      assume "fst e' \<noteq> fst e"
      then have "crossTeamTie sts"
        unfolding crossTeamTie_def H_def [symmetric] using c c' by metis
      with that show False ..
    qed
    have tie: "N (fst e) = 0" if "crossTeamTie sts"
    proof -
      from that obtain s t where s: "s \<in> set H" "\<forall>u \<in> set H. distToButton s \<le> distToButton u"
        and t: "t \<in> set H" "\<forall>u \<in> set H. distToButton t \<le> distToButton u"
        and "team s \<noteq> team t"
        unfolding crossTeamTie_def H_def [symmetric] by blast
      then have "team s \<noteq> fst e \<or> team t \<noteq> fst e" by auto
      then show ?thesis
        using zero [OF s(1) _ s(2)] zero [OF t(1) _ t(2)] by blast
    qed
    show ?thesis
      using pts tm tie by (auto simp: r r')
  qed
  with distToButton_centre [of st] show ?thesis
    by blast
qed

theorem calculateScore_permutation_witness:
  "mset [yellow15, red20, red10] = mset [red10, red20, yellow15]
   \<and> \<not> crossTeamTie [red10, red20, yellow15]
   \<and> calculateScore [yellow15, red20, red10] = calculateScore [red10, red20, yellow15]"
proof -
  have p: "mset [yellow15, red20, red10] = mset [red10, red20, yellow15]"
    by simp
  have nt: "\<not> crossTeamTie [red10, red20, yellow15]"
    by (simp add: crossTeamTie_def candidates_def demo_fields dist_red10 dist_red20
        dist_yellow15 maxDist_def constants_defs)
  from calculateScore_permutation [OF p] nt p show ?thesis
    by (simp add: score_result.equality)
qed

section \<open>The turn counter\<close>

lemma thrownSum_addEntry:
  "t = 0 \<or> t = 1
     \<Longrightarrow> thrownSum (g\<lparr>stonesThrown := addEntry t 1 (stonesThrown g)\<rparr>) = thrownSum g + 1"
  by (auto simp: thrownSum_def addEntry_def)

lemma endEnd_fields:
  "state (endEnd g) = EndOver" "stonesThrown (endEnd g) = stonesThrown g"
  "currentTeam (endEnd g) = currentTeam g"
  by (simp_all add: endEnd_def Let_def)

lemma nextTurn_fields:
  "state (nextTurn g) = (if thrownSum g \<ge> 16 then EndOver else Cooldown)"
  "stonesThrown (nextTurn g) = stonesThrown g"
  "currentTeam g = 0 \<or> currentTeam g = 1
     \<Longrightarrow> currentTeam (nextTurn g) = 0 \<or> currentTeam (nextTurn g) = 1"
  by (auto simp add: nextTurn_def thrownSum_def endEnd_fields Let_def)

lemma thrownSum_nextTurn: "thrownSum (nextTurn g) = thrownSum g"
  by (simp add: thrownSum_def nextTurn_fields)

lemma nextTurn_invariant:
  assumes "thrownSum g \<le> 16" and "currentTeam g = 0 \<or> currentTeam g = 1"
  shows "endInvariant (nextTurn g)"
  using assms nextTurn_fields(3) [OF assms(2)]
  by (auto simp add: endInvariant_def thrownSum_nextTurn nextTurn_fields(1))

lemma enforce_fields:
  "state (enforceFreeGuardZone g) = state g"
  "stonesThrown (enforceFreeGuardZone g) = stonesThrown g"
  "currentTeam (enforceFreeGuardZone g) = currentTeam g"
  by (simp_all add: enforceFreeGuardZone_def Let_def)

lemma hog_fields:
  "state (checkHogLine g) = state g"
  "stonesThrown (checkHogLine g) = stonesThrown g"
  "currentTeam (checkHogLine g) = currentTeam g"
  by (simp_all add: checkHogLine_def)

lemma dispatch_invariant:
  assumes "endInvariant g" and "inTurn g e"
  shows "endInvariant (dispatch g e)"
proof (cases e)
  case (Remote a)
  show ?thesis
  proof (cases a)
    case (Launch t avx avy rz)
    with Remote assms show ?thesis
      by (auto simp add: endInvariant_def launchStoneFromAction_def thrownSum_def addEntry_def
          Let_def split: option.splits)
  next
    case (Timeout t)
    from Remote Timeout assms have t: "t = 0 \<or> t = 1" and lt: "thrownSum g < 16"
      by simp_all
    have "thrownSum (g\<lparr>stonesThrown := addEntry t 1 (stonesThrown g)\<rparr>) \<le> 16"
      using thrownSum_addEntry [OF t, of g] lt by simp
    moreover have "currentTeam (g\<lparr>stonesThrown := addEntry t 1 (stonesThrown g)\<rparr>) = 0
        \<or> currentTeam (g\<lparr>stonesThrown := addEntry t 1 (stonesThrown g)\<rparr>) = 1"
      using assms(1) by (simp add: endInvariant_def)
    ultimately show ?thesis
      using Remote Timeout by (simp add: nextTurn_invariant)
  next
    case (Sweep x y)
    with Remote assms show ?thesis
      by (simp add: endInvariant_def thrownSum_def)
  next
    case (SyncStones sds)
    with Remote assms show ?thesis
      by (simp add: endInvariant_def thrownSum_def applyStoneSyncFromRemote_def)
  next
    case EndEndAction
    with Remote assms show ?thesis by simp
  qed
next
  case AimTimeLimit
  show ?thesis
  proof (cases "(state g = Aiming \<or> state g = AimLocked) \<and> isMyTurn g")
    case True
    let ?g = "g\<lparr>stonesThrown := addEntry (currentTeam g) 1 (stonesThrown g)\<rparr>"
    have ct: "currentTeam g = 0 \<or> currentTeam g = 1"
      using assms(1) by (simp add: endInvariant_def)
    have "thrownSum g < 16"
      using True assms(1) by (auto simp: endInvariant_def)
    then have "thrownSum ?g \<le> 16"
      using thrownSum_addEntry [OF ct, of g] by simp
    moreover have "currentTeam ?g = 0 \<or> currentTeam ?g = 1"
      using ct by simp
    ultimately have "endInvariant (nextTurn ?g)"
      by (rule nextTurn_invariant)
    with True AimTimeLimit show ?thesis
      by (simp add: aimTimeout_def)
  next
    case False
    with AimTimeLimit assms show ?thesis
      by (auto simp add: aimTimeout_def)
  qed
next
  case CooldownElapsed
  with assms show ?thesis
    by (auto simp add: cooldownElapsed_def endInvariant_def thrownSum_def)
next
  case AimRelease
  with assms show ?thesis
    by (auto simp add: aimRelease_def endInvariant_def thrownSum_def)
next
  case CancelClick
  with assms show ?thesis
    by (auto simp add: btnCancelAim_click_def endInvariant_def thrownSum_def)
next
  case (LaunchClick lvx lvy)
  with assms show ?thesis
    by (auto simp add: btnLaunch_click_def launchStone_def endInvariant_def thrownSum_def
        addEntry_def Let_def)
next
  case (Frame p')
  show ?thesis
  proof (cases "state g = Waiting \<and> \<not> anyMoving p'")
    case True
    let ?g = "checkHogLine (enforceFreeGuardZone (g\<lparr>physics := p', isLaunchOwner := False\<rparr>))"
    have "thrownSum ?g \<le> 16" "currentTeam ?g = 0 \<or> currentTeam ?g = 1"
      using assms(1) by (simp_all add: endInvariant_def thrownSum_def hog_fields enforce_fields)
    then have "endInvariant (nextTurn ?g)"
      by (rule nextTurn_invariant)
    with True Frame show ?thesis
      by (simp add: waitingFrame_def Let_def)
  next
    case False
    with Frame assms show ?thesis
      by (auto simp add: waitingFrame_def Let_def endInvariant_def thrownSum_def)
  qed
qed

lemma startEnd_invariant: "endInvariant (startEnd g rz)"
  by (simp add: startEnd_def endInvariant_def thrownSum_def Let_def)

text \<open>
  What does hold of the turn counter: along every run of events in which the throws
  relayed from the other peer arrive in turn, at most 16 stones are counted, the phases
  \<open>aiming\<close>, \<open>aim_locked\<close> and \<open>cooldown\<close> are only held with fewer than 16, and
  \<open>end_over\<close> only with exactly 16.
\<close>

lemma run_invariant:
  "endInvariant g \<Longrightarrow> inTurnRun g es \<Longrightarrow> endInvariant (foldl dispatch g es)"
  by (induction es arbitrary: g) (simp_all add: dispatch_invariant)

lemma endOverGame_eval:
  "endOverGame =
     newGame\<lparr>stonesThrown := (8, 8), currentTeam := 1, isMyTurn := True, state := EndOver,
             endScores := [(0, 0)], currentEnd := 2\<rparr>"
  by (simp add: endOverGame_def skippedEnd_def skippedRound_def startEnd_def newGame_def
      aimTimeout_def nextTurn_def endEnd_def cooldownElapsed_def addEntry_def entry_def
      calculateScore_def inHouse_def clearSweepZones_def Let_def)

text \<open>
  Claim C8 on the code. After an end in which all 16 turns were skipped the peer is in
  \<open>end_over\<close> with 8 + 8 stones counted. A \<open>timeout\<close> action relayed from the other peer
  is then still counted: the sum becomes 17 and \<open>endEnd\<close> runs a second time. A relayed
  \<open>launch\<close> is counted as well and takes the peer from \<open>end_over\<close> back to \<open>waiting\<close>.
\<close>

theorem throw_after_end_over:
  "state endOverGame = EndOver \<and> stonesThrown endOverGame = (8, 8) \<and> currentEnd endOverGame = 2
   \<and> stonesThrown (handleRemoteAction endOverGame (Timeout 0)) = (9, 8)
   \<and> currentEnd (handleRemoteAction endOverGame (Timeout 0)) = 3
   \<and> stonesThrown (handleRemoteAction endOverGame (Launch 0 0 (- 3) None)) = (9, 8)
   \<and> state (handleRemoteAction endOverGame (Launch 0 0 (- 3) None)) = Waiting"
  by (simp add: endOverGame_eval newGame_def nextTurn_def endEnd_def addEntry_def
      calculateScore_def inHouse_def launchStoneFromAction_def Let_def)

section \<open>The free guard zone\<close>

lemma findIndex_Some:
  "findIndex P xs = Some i \<Longrightarrow> i < length xs \<and> P (xs ! i)"
proof (induction xs arbitrary: i)
  case Nil
  then show ?case by simp
next
  case (Cons x xs)
  then show ?case by (cases "P x") auto
qed

text \<open>In the re-created case the array only grows by the restored stone: whatever the
  stones are, none of them is retired.\<close>

lemma recreated_without_penalty:
  assumes "findIndex (isDisplaced pre) sts = None" and "sd_team pre \<noteq> ct"
  shows "restoreAndPenalise ct pre sts = sts @ [Stone (sd_team pre) (sd_x pre) (sd_y pre)]"
  using assms by (simp add: restoreAndPenalise_def Stone_def)

text \<open>In the displaced case the stone found is put back at rest on the snapshot position,
  and the last stone of the array is retired if it belongs to the throwing team.\<close>

lemma displaced_with_penalty:
  assumes "findIndex (isDisplaced pre) sts = Some i" and "team (last sts) = ct"
    and "sd_team pre \<noteq> ct"
  shows "restoreAndPenalise ct pre sts =
     (sts[i := (sts ! i)\<lparr>pos_x := sd_x pre, pos_y := sd_y pre, vx := 0, vy := 0\<rparr>])
       [length sts - 1 := (last sts)\<lparr>active := False\<rparr>]"
proof -
  from findIndex_Some [OF assms(1)] have i: "i < length sts" and d: "isDisplaced pre (sts ! i)"
    by simp_all
  then have ne: "sts \<noteq> []" by auto
  have "team (sts ! i) = sd_team pre" using d by (simp add: isDisplaced_def)
  with assms(2,3) have "sts ! i \<noteq> last sts" by auto
  then have il: "i \<noteq> length sts - 1" using ne by (auto simp: last_conv_nth)
  let ?u = "sts[i := (sts ! i)\<lparr>pos_x := sd_x pre, pos_y := sd_y pre, vx := 0, vy := 0\<rparr>]"
  have "last ?u = last sts"
    using ne il by (simp add: last_conv_nth)
  then show ?thesis
    using assms ne by (simp add: restoreAndPenalise_def Let_def)
qed

text \<open>
  Claim C1 on the code. On the second throw of an end an opponent guard is knocked out
  of play. \<open>enforceFreeGuardZone\<close> re-creates the guard at its snapshot position, at the
  end of the array; its penalty then reads the last stone of the array, which is the
  guard just re-created and not the stone thrown, so the thrown stone stays active.
\<close>

theorem thrown_stone_not_retired:
  "stones (physics (enforceFreeGuardZone guardKnockedOut))
     = [(Stone 1 250 192)\<lparr>active := False\<rparr>, Stone 0 210 185, Stone 1 216 192]
   \<and> active (stones (physics (enforceFreeGuardZone guardKnockedOut)) ! 1)"
  by (simp add: enforceFreeGuardZone_def guardKnockedOut_def newGame_def inFGZ_def
      stillThere_def isDisplaced_def restoreAndPenalise_def isMoving_def speed_def Stone_def
      houseCenter_def constants_defs less_sqrt_iff Let_def)

section \<open>Reconciliation by sync-stones\<close>

lemma snapshot_stoneOfData: "snapshot (stoneOfData sd) = sd"
  by (cases sd) (simp add: snapshot_def stoneOfData_def Stone_def)

text \<open>
  Claim C4. Applying a sync-stones payload replaces the stone collection by the stones
  built from the payload, one per entry and in its order, each with the team, position,
  velocity and active flag of its entry; the result does not depend on the stones held
  before, and applying the same payload a second time changes nothing.
\<close>

theorem applyStoneSyncFromRemote_replaces:
  "stones (physics (applyStoneSyncFromRemote g sds)) = map stoneOfData sds
   \<and> map snapshot (stones (physics (applyStoneSyncFromRemote g sds))) = sds
   \<and> stones (physics (applyStoneSyncFromRemote g sds))
       = stones (physics (applyStoneSyncFromRemote g' sds))
   \<and> applyStoneSyncFromRemote (applyStoneSyncFromRemote g sds) sds
       = applyStoneSyncFromRemote g sds"
  by (simp add: applyStoneSyncFromRemote_def snapshot_stoneOfData comp_def)

end
